theory Spec2Isabelle
  imports Complex_Main
begin

section \<open>Numbers and arrays\<close>

text \<open>
  The program computes with IEEE-754 doubles held in numpy arrays. The model keeps the
  special values of that arithmetic (\<open>+inf\<close>, \<open>-inf\<close>, \<open>nan\<close>) and their rules, and takes
  every finite value as an exact real: no rounding, no overflow of a finite result, no
  signed zero. A statement proved here is a statement "in exact real arithmetic".
\<close>

datatype float64 = Fin real | PInf | MInf | NaN

fun isnan :: "float64 \<Rightarrow> bool" where
  "isnan NaN = True"
| "isnan _ = False"

fun isfinite :: "float64 \<Rightarrow> bool" where
  "isfinite (Fin _) = True"
| "isfinite _ = False"

fun fneg :: "float64 \<Rightarrow> float64" where
  "fneg (Fin a) = Fin (- a)"
| "fneg PInf = MInf"
| "fneg MInf = PInf"
| "fneg NaN = NaN"

fun fadd :: "float64 \<Rightarrow> float64 \<Rightarrow> float64" where
  "fadd (Fin a) (Fin b) = Fin (a + b)"
| "fadd (Fin a) PInf = PInf"
| "fadd (Fin a) MInf = MInf"
| "fadd PInf (Fin b) = PInf"
| "fadd PInf PInf = PInf"
| "fadd PInf MInf = NaN"
| "fadd MInf (Fin b) = MInf"
| "fadd MInf PInf = NaN"
| "fadd MInf MInf = MInf"
| "fadd NaN _ = NaN"
| "fadd _ NaN = NaN"

definition fsub :: "float64 \<Rightarrow> float64 \<Rightarrow> float64" where
  "fsub a b = fadd a (fneg b)"

text \<open>The sign of an infinite product or quotient, given the sign of the finite factor.\<close>

definition signed_inf :: "bool \<Rightarrow> float64" where
  "signed_inf positive = (if positive then PInf else MInf)"

fun fmul :: "float64 \<Rightarrow> float64 \<Rightarrow> float64" where
  "fmul (Fin a) (Fin b) = Fin (a * b)"
| "fmul (Fin a) PInf = (if a = 0 then NaN else signed_inf (0 < a))"
| "fmul (Fin a) MInf = (if a = 0 then NaN else signed_inf (a < 0))"
| "fmul PInf (Fin b) = (if b = 0 then NaN else signed_inf (0 < b))"
| "fmul MInf (Fin b) = (if b = 0 then NaN else signed_inf (b < 0))"
| "fmul PInf PInf = PInf"
| "fmul PInf MInf = MInf"
| "fmul MInf PInf = MInf"
| "fmul MInf MInf = PInf"
| "fmul NaN _ = NaN"
| "fmul _ NaN = NaN"

text \<open>
  Division as numpy does it (a warning, never an exception): \<open>x / 0\<close> is an infinity
  of the sign of \<open>x\<close>, and \<open>0 / 0\<close> is \<open>nan\<close>.
\<close>

fun fdiv :: "float64 \<Rightarrow> float64 \<Rightarrow> float64" where
  "fdiv (Fin a) (Fin b) =
     (if b \<noteq> 0 then Fin (a / b) else if a = 0 then NaN else signed_inf (0 < a))"
| "fdiv (Fin a) PInf = Fin 0"
| "fdiv (Fin a) MInf = Fin 0"
| "fdiv PInf (Fin b) = signed_inf (0 \<le> b)"
| "fdiv MInf (Fin b) = signed_inf (b < 0)"
| "fdiv PInf PInf = NaN"
| "fdiv PInf MInf = NaN"
| "fdiv MInf PInf = NaN"
| "fdiv MInf MInf = NaN"
| "fdiv NaN _ = NaN"
| "fdiv _ NaN = NaN"

fun fexp :: "float64 \<Rightarrow> float64" where
  "fexp (Fin a) = Fin (exp a)"
| "fexp PInf = PInf"
| "fexp MInf = Fin 0"
| "fexp NaN = NaN"

text \<open>\<open>np.log\<close>: \<open>log 0 = -inf\<close>, and the logarithm of a negative number is \<open>nan\<close>.\<close>

fun flog :: "float64 \<Rightarrow> float64" where
  "flog (Fin a) = (if 0 < a then Fin (ln a) else if a = 0 then MInf else NaN)"
| "flog PInf = PInf"
| "flog MInf = NaN"
| "flog NaN = NaN"

text \<open>The comparison \<open>a < b\<close>: false as soon as one side is \<open>nan\<close>.\<close>

fun fless :: "float64 \<Rightarrow> float64 \<Rightarrow> bool" where
  "fless (Fin a) (Fin b) = (a < b)"
| "fless (Fin a) PInf = True"
| "fless MInf (Fin b) = True"
| "fless MInf PInf = True"
| "fless _ _ = False"

text \<open>The reductions \<open>np.max\<close> and \<open>np.min\<close> hand a \<open>nan\<close> on.\<close>

definition fmax :: "float64 \<Rightarrow> float64 \<Rightarrow> float64" where
  "fmax a b = (if isnan a \<or> isnan b then NaN else if fless a b then b else a)"

definition fmin :: "float64 \<Rightarrow> float64 \<Rightarrow> float64" where
  "fmin a b = (if isnan a \<or> isnan b then NaN else if fless b a then b else a)"

datatype error =
    ValueError
  | IndexError nat nat
  | ZeroDivisionError
  | Exception string

text \<open>
  A computation that can raise returns \<open>Inl\<close> of the exception or \<open>Inr\<close> of its value;
  the statements that follow a raise are not run.
\<close>

definition bind_err :: "error + 'a \<Rightarrow> ('a \<Rightarrow> error + 'b) \<Rightarrow> error + 'b" where
  "bind_err m f = (case m of Inl e \<Rightarrow> Inl e | Inr a \<Rightarrow> f a)"

text \<open>
  \<open>IndexError i n\<close>: index \<open>i\<close> is out of bounds for an axis of size \<open>n\<close>.
  \<open>np.max\<close> and \<open>np.min\<close> of an empty array raise a \<open>ValueError\<close>.
\<close>

fun np_max :: "float64 list \<Rightarrow> error + float64" where
  "np_max [] = Inl ValueError"
| "np_max (a # as) = Inr (foldl fmax a as)"

fun np_min :: "float64 list \<Rightarrow> error + float64" where
  "np_min [] = Inl ValueError"
| "np_min (a # as) = Inr (foldl fmin a as)"

definition np_sum :: "float64 list \<Rightarrow> float64" where
  "np_sum xs = foldr fadd xs (Fin 0)"

section \<open>The log-sum-exp primitive\<close>

text \<open>
  \<^verbatim>\<open>
  def _logsumexp(x):
      c = np.max(x)
      return c + np.log(np.sum(np.exp(x - c)))
  \<close>
\<close>

definition logsumexp :: "float64 list \<Rightarrow> error + float64" where
  "logsumexp x =
     bind_err (np_max x) (\<lambda>c.
       Inr (fadd c (flog (np_sum (map (\<lambda>a. fexp (fsub a c)) x)))))"

section \<open>Weight update\<close>

text \<open>
  \<open>np.nonzero(a)\<close>: the positions whose entry differs from zero, in increasing order
  (\<open>nan\<close> and the infinities differ from zero). \<open>a[idx]\<close> with an index array reads the
  listed positions and raises an \<open>IndexError\<close> at the first one that is out of range.
\<close>

definition np_nonzero :: "float64 list \<Rightarrow> nat list" where
  "np_nonzero a = filter (\<lambda>i. a ! i \<noteq> Fin 0) [0..<length a]"

fun take_idx :: "'a list \<Rightarrow> nat list \<Rightarrow> error + 'a list" where
  "take_idx a [] = Inr []"
| "take_idx a (i # idx) =
     (if i < length a
      then (case take_idx a idx of Inl e \<Rightarrow> Inl e | Inr r \<Rightarrow> Inr (a ! i # r))
      else Inl (IndexError i (length a)))"

text \<open>\<open>a[idx] = vals\<close>, for an index array and as many values: one store per position.\<close>

definition put_idx :: "'a list \<Rightarrow> nat list \<Rightarrow> 'a list \<Rightarrow> 'a list" where
  "put_idx a idx vals = fold (\<lambda>(i, v) acc. acc[i := v]) (zip idx vals) a"

text \<open>
  \<^verbatim>\<open>
  def _weight_update(LogLt, weight_predictions):
      non_zero = np.nonzero(weight_predictions)
      y = LogLt[non_zero]
      logw = np.log(weight_predictions[non_zero])
      x = y + logw
      wp = np.zeros(len(weight_predictions))
      wp[non_zero] = np.exp(x - _logsumexp(x))
      return wp
  \<close>
  The positions of \<open>non_zero\<close> are positions of \<open>weight_predictions\<close>, so only the read of
  \<open>LogLt\<close> can be out of range; \<open>y\<close> and \<open>logw\<close> have the same length.
\<close>

definition weight_update :: "float64 list \<Rightarrow> float64 list \<Rightarrow> error + float64 list" where
  "weight_update LogLt weight_predictions =
     (let non_zero = np_nonzero weight_predictions in
      bind_err (take_idx LogLt non_zero) (\<lambda>y.
      let logw = map (\<lambda>i. flog (weight_predictions ! i)) non_zero;
          x = map2 fadd y logw;
          wp = replicate (length weight_predictions) (Fin 0)
      in
      bind_err (logsumexp x) (\<lambda>l.
        Inr (put_idx wp non_zero (map (\<lambda>a. fexp (fsub a l)) x)))))"

section \<open>Existence-probability update\<close>

text \<open>
  An arithmetic operation on two one-dimensional arrays broadcasts an array of length one
  and raises a \<open>ValueError\<close> on any other difference of lengths.
\<close>

definition np_binop ::
  "(float64 \<Rightarrow> float64 \<Rightarrow> float64) \<Rightarrow> float64 list \<Rightarrow> float64 list \<Rightarrow> error + float64 list" where
  "np_binop f a b =
     (if length a = length b then Inr (map2 f a b)
      else if length a = 1 then Inr (map (f (hd a)) b)
      else if length b = 1 then Inr (map (\<lambda>x. f x (hd b)) a)
      else Inl ValueError)"

text \<open>
  \<^verbatim>\<open>
  def _update_existance_prob_linear_domain(weight_predictions, LogRatio, prob_prediction):
      Ratio = np.exp(LogRatio)
      I = np.sum(weight_predictions * Ratio)
      if np.isfinite(I):
          q = I * prob_prediction / (1 - prob_prediction + prob_prediction * I)
          return q
      else:
          return 1.0
  \<close>
\<close>

definition update_existance_prob_linear_domain ::
  "float64 list \<Rightarrow> float64 list \<Rightarrow> float64 \<Rightarrow> error + float64" where
  "update_existance_prob_linear_domain weight_predictions LogRatio prob_prediction =
     (let Ratio = map fexp LogRatio in
      bind_err (np_binop fmul weight_predictions Ratio) (\<lambda>wr.
      let I = np_sum wr in
      if isfinite I
      then Inr (fdiv (fmul I prob_prediction)
                  (fadd (fsub (Fin 1) prob_prediction) (fmul prob_prediction I)))
      else Inr (Fin 1)))"

text \<open>
  \<^verbatim>\<open>
  def _update_existance_prob(weight_predictions, LogRatio, prob_prediction):
      non_zero = np.nonzero(weight_predictions)
      wp = weight_predictions[non_zero]
      y = LogRatio[non_zero]
      x1 = y + np.log(wp)
      x2 = y + np.log(prob_prediction) + np.log(wp)
      x2 = np.insert(x2, 0, np.log(1 - prob_prediction))
      logq = _logsumexp(x1) + np.log(prob_prediction) - _logsumexp(x2)
      q = np.exp(logq)
      return np.min([q, 1])
  \<close>
\<close>

definition update_existance_prob ::
  "float64 list \<Rightarrow> float64 list \<Rightarrow> float64 \<Rightarrow> error + float64" where
  "update_existance_prob weight_predictions LogRatio prob_prediction =
     (let non_zero = np_nonzero weight_predictions;
          wp = map (\<lambda>i. weight_predictions ! i) non_zero
      in
      bind_err (take_idx LogRatio non_zero) (\<lambda>y.
      let x1 = map2 fadd y (map flog wp);
          x2 = map2 fadd (map (\<lambda>a. fadd a (flog prob_prediction)) y) (map flog wp);
          x2' = flog (fsub (Fin 1) prob_prediction) # x2
      in
      bind_err (logsumexp x1) (\<lambda>l1.
      bind_err (logsumexp x2') (\<lambda>l2.
      let logq = fsub (fadd l1 (flog prob_prediction)) l2;
          q = fexp logq
      in np_min [q, Fin 1]))))"

section \<open>Systematic resampler\<close>

text \<open>
  The random source is a numpy \<open>Generator\<close>, which is not code of this repository. Its
  state is a value of a type \<open>'g\<close>, and the two methods the resampler calls are taken as
  they are given: \<open>random()\<close> returns a double and the next state, \<open>choice(a, size)\<close>
  returns \<open>size\<close> draws from \<open>range(a)\<close> and the next state.
\<close>

record 'g Generator =
  gen_random :: "'g \<Rightarrow> real \<times> 'g"
  gen_choice :: "nat \<Rightarrow> nat \<Rightarrow> 'g \<Rightarrow> nat list \<times> 'g"

fun cumsum_from :: "float64 \<Rightarrow> float64 list \<Rightarrow> float64 list" where
  "cumsum_from acc [] = []"
| "cumsum_from acc (a # as) = fadd acc a # cumsum_from (fadd acc a) as"

definition np_cumsum :: "float64 list \<Rightarrow> float64 list" where
  "np_cumsum a = cumsum_from (Fin 0) a"

text \<open>
  The selection loop, with the two counters and the index array as its state:
  \<^verbatim>\<open>
      i,j = 0, 0
      while i < N:
          if positions[i] < cumsum[j]:
              indices[i] = j
              i = i + 1
          else:
              j = j + 1
      return indices
  \<close>
  \<open>i < N\<close> keeps the read of \<open>positions\<close> and the store to \<open>indices\<close> in range (both
  have \<open>N\<close> entries); the read \<open>cumsum[j]\<close> raises an \<open>IndexError\<close> once \<open>j\<close> has reached
  the length of \<open>cumsum\<close>.
\<close>

function sysresample_loop ::
  "nat \<Rightarrow> float64 list \<Rightarrow> float64 list \<Rightarrow> nat \<Rightarrow> nat \<Rightarrow> nat list \<Rightarrow> error + nat list" where
  "sysresample_loop N positions cumsum i j indices =
     (if i < N then
        (if j < length cumsum then
           (if fless (positions ! i) (cumsum ! j)
            then sysresample_loop N positions cumsum (i + 1) j (indices[i := j])
            else sysresample_loop N positions cumsum i (j + 1) indices)
         else Inl (IndexError j (length cumsum)))
      else Inr indices)"
  by pat_completeness auto
termination
  by (relation "measure (\<lambda>(N, positions, cumsum, i, j, indices). (N - i) + (length cumsum - j))")
    auto

declare sysresample_loop.simps [simp del]

text \<open>
  \<^verbatim>\<open>
  def _sysresample(weights, Nsuv, rng):
      N = min(len(weights), Nsuv)
      if np.any(np.isnan(weights)):
          return rng.choice(len(weights), N)
      positions = (rng.random() + np.arange(N)) / N
      indices = np.zeros(N, int)
      cumsum = np.cumsum(weights)
      ...
  \<close>
  A negative \<open>N\<close> is refused by numpy (\<open>np.zeros\<close> and \<open>choice\<close> raise a \<open>ValueError\<close>
  for a negative size); \<open>np.arange\<close> of it is empty, so the division before it raises
  nothing.
\<close>

definition sysresample ::
  "'g Generator \<Rightarrow> float64 list \<Rightarrow> int \<Rightarrow> 'g \<Rightarrow> error + (nat list \<times> 'g)" where
  "sysresample np weights Nsuv rng =
     (let N = min (int (length weights)) Nsuv in
      if list_ex isnan weights then
        (if N < 0 then Inl ValueError
         else Inr (gen_choice np (length weights) (nat N) rng))
      else
        (let (u, rng') = gen_random np rng;
             positions = map (\<lambda>k. fdiv (Fin (u + real k)) (Fin (real_of_int N))) [0..<nat N]
         in if N < 0 then Inl ValueError
            else
              (let indices = replicate (nat N) 0;
                   cumsum = np_cumsum weights
               in bind_err (sysresample_loop (nat N) positions cumsum 0 0 indices)
                    (\<lambda>r. Inr (r, rng')))))"

section \<open>Filter state\<close>

text \<open>
  A particle population is a two-dimensional array: a row per particle. The number of
  columns is kept beside the rows, as the shape of a numpy array keeps it for an array of
  no rows.
\<close>

record matrix =
  ncols :: nat
  rows :: "float64 list list"

definition nrows :: "matrix \<Rightarrow> nat" where
  "nrows P = length (rows P)"

text \<open>\<open>np.concatenate((A, B))\<close> along the rows: the numbers of columns must agree.\<close>

definition np_concatenate :: "matrix \<Rightarrow> matrix \<Rightarrow> error + matrix" where
  "np_concatenate A B =
     (if ncols A = ncols B then Inr \<lparr>ncols = ncols A, rows = rows A @ rows B\<rparr>
      else Inl ValueError)"

text \<open>
  A scalar is a Python number or a numpy scalar. The two differ in one respect here: a
  division of Python numbers by zero raises \<open>ZeroDivisionError\<close>, a division that involves
  a numpy scalar returns an infinity or \<open>nan\<close>. An operation on two Python numbers gives a
  Python number, any other a numpy scalar.
\<close>

datatype scalar = Py float64 | Np float64

fun sval :: "scalar \<Rightarrow> float64" where
  "sval (Py a) = a"
| "sval (Np a) = a"

fun is_py :: "scalar \<Rightarrow> bool" where
  "is_py (Py _) = True"
| "is_py (Np _) = False"

definition sc_op :: "(float64 \<Rightarrow> float64 \<Rightarrow> float64) \<Rightarrow> scalar \<Rightarrow> scalar \<Rightarrow> scalar" where
  "sc_op f a b =
     (if is_py a \<and> is_py b then Py (f (sval a) (sval b)) else Np (f (sval a) (sval b)))"

definition sc_div :: "scalar \<Rightarrow> scalar \<Rightarrow> error + scalar" where
  "sc_div a b =
     (if is_py a \<and> is_py b \<and> sval b = Fin 0 then Inl ZeroDivisionError
      else Inr (sc_op fdiv a b))"

type_synonym 'm Likelihood = "matrix \<Rightarrow> 'm option \<Rightarrow> float64 list \<times> float64 list"
type_synonym ('g, 'm) BirthModel = "'m option \<Rightarrow> int \<Rightarrow> 'g \<Rightarrow> matrix \<times> 'g"
type_synonym MotionModel = "matrix \<Rightarrow> matrix"

text \<open>
  The filter object. Its \<open>rng\<close> field is a reference to a generator object, which the
  transition advances in place and the returned filter shares: the generators live in a
  store, a function from references to generator states. The three collaborators are
  fields of the object; the birth model is handed the generator and advances it.
\<close>

type_synonym 'g store = "nat \<Rightarrow> 'g"

record ('g, 'm) BerParticleFilter =
  likelihood_fn :: "'m Likelihood"
  birth_model :: "('g, 'm) BirthModel"
  motion_model :: MotionModel
  Nsuv :: int
  Nbirth :: int
  prob_birth :: scalar
  prob_surv :: scalar
  prob :: scalar
  particles_surv :: matrix
  weights_surv :: "float64 list"
  particles_born :: matrix
  weights_born :: "float64 list"
  N_eff :: float64
  N_eff_surv :: float64
  N_eff_surv_normalized :: float64
  N_eff_born :: float64
  N_eff_born_normalized :: float64
  rng :: nat

text \<open>\<open>np.ones(n) / n\<close> for an integer \<open>n\<close>; \<open>np.ones\<close> refuses a negative size.\<close>

definition uniform_weights :: "int \<Rightarrow> error + float64 list" where
  "uniform_weights n =
     (if n < 0 then Inl ValueError
      else Inr (replicate (nat n) (fdiv (Fin 1) (Fin (real_of_int n)))))"

text \<open>
  The constructor, with its keyword arguments in the order of the source; an argument
  left at \<open>None\<close> is \<open>None\<close> here, every other default is written out by the caller.
  \<^verbatim>\<open>
        self.prob = prob
        if particles_born is None:
            self.particles_born = birth_model(None, Nbirth, rng)
        else:
            self.particles_born = particles_born
        if weights_born is None:
            self.weights_born = 1/Nbirth * np.ones(Nbirth)
        else:
            self.weights_born = weights_born
        if particles_surv is None:
            self.particles_surv = np.empty((0, self.particles_born.shape[1]))
        else:
            self.particles_surv = particles_surv
        if weights_surv is None:
            self.weights_surv = np.empty(0)
        else:
            self.weights_surv = weights_surv
        self.Nsuv = Nsuv
        ...
  \<close>
  \<open>1/Nbirth\<close> divides Python integers and comes before \<open>np.ones(Nbirth)\<close>. No argument
  is checked.
\<close>

definition init ::
  "int \<Rightarrow> int \<Rightarrow> scalar \<Rightarrow> scalar \<Rightarrow> 'm Likelihood \<Rightarrow> ('g, 'm) BirthModel \<Rightarrow> MotionModel \<Rightarrow>
   scalar \<Rightarrow> matrix option \<Rightarrow> float64 list option \<Rightarrow> matrix option \<Rightarrow> float64 list option \<Rightarrow>
   float64 \<Rightarrow> float64 \<Rightarrow> float64 \<Rightarrow> float64 \<Rightarrow> float64 \<Rightarrow> nat \<Rightarrow> 'g store \<Rightarrow>
   error + (('g, 'm) BerParticleFilter \<times> 'g store)" where
  "init a_Nsuv a_Nbirth a_prob_birth a_prob_surv a_likelihood_fn a_birth_model a_motion_model
        a_prob a_particles_born a_weights_born a_particles_surv a_weights_surv
        a_N_eff a_N_eff_surv a_N_eff_surv_normalized a_N_eff_born a_N_eff_born_normalized
        a_rng h =
     (let (p_born, h') =
            (case a_particles_born of
               None \<Rightarrow>
                 (let (p, g) = a_birth_model None a_Nbirth (h a_rng) in (p, h(a_rng := g)))
             | Some p \<Rightarrow> (p, h))
      in bind_err
           (case a_weights_born of
              None \<Rightarrow>
                (if a_Nbirth = 0 then Inl ZeroDivisionError
                 else if a_Nbirth < 0 then Inl ValueError
                 else Inr (replicate (nat a_Nbirth)
                             (fmul (Fin (1 / real_of_int a_Nbirth)) (Fin 1))))
            | Some w \<Rightarrow> Inr w)
           (\<lambda>w_born.
             Inr (\<lparr>likelihood_fn = a_likelihood_fn,
                   birth_model = a_birth_model,
                   motion_model = a_motion_model,
                   Nsuv = a_Nsuv,
                   Nbirth = a_Nbirth,
                   prob_birth = a_prob_birth,
                   prob_surv = a_prob_surv,
                   prob = a_prob,
                   particles_surv =
                     (case a_particles_surv of
                        None \<Rightarrow> \<lparr>ncols = ncols p_born, rows = []\<rparr>
                      | Some p \<Rightarrow> p),
                   weights_surv = (case a_weights_surv of None \<Rightarrow> [] | Some w \<Rightarrow> w),
                   particles_born = p_born,
                   weights_born = w_born,
                   N_eff = a_N_eff,
                   N_eff_surv = a_N_eff_surv,
                   N_eff_surv_normalized = a_N_eff_surv_normalized,
                   N_eff_born = a_N_eff_born,
                   N_eff_born_normalized = a_N_eff_born_normalized,
                   rng = a_rng\<rparr>, h')))"

text \<open>
  \<open>override\<close> builds a new filter from the fields of this one and the keyword arguments
  given, through the constructor. The transition is its only caller and replaces these
  ten fields.
\<close>

definition override ::
  "('g, 'm) BerParticleFilter \<Rightarrow> 'g store \<Rightarrow> matrix \<Rightarrow> float64 list \<Rightarrow> matrix \<Rightarrow> float64 list \<Rightarrow>
   scalar \<Rightarrow> float64 \<Rightarrow> float64 \<Rightarrow> float64 \<Rightarrow> float64 \<Rightarrow> float64 \<Rightarrow>
   error + (('g, 'm) BerParticleFilter \<times> 'g store)" where
  "override s h k_particles_born k_weights_born k_particles_surv k_weights_surv k_prob
        k_N_eff k_N_eff_surv k_N_eff_surv_normalized k_N_eff_born k_N_eff_born_normalized =
     init (Nsuv s) (Nbirth s) (prob_birth s) (prob_surv s)
       (likelihood_fn s) (birth_model s) (motion_model s)
       k_prob (Some k_particles_born) (Some k_weights_born)
       (Some k_particles_surv) (Some k_weights_surv)
       k_N_eff k_N_eff_surv k_N_eff_surv_normalized k_N_eff_born k_N_eff_born_normalized
       (rng s) h"

text \<open>The effective sample size \<open>1/np.sum(w**2)\<close> and its locally renormalised form.\<close>

definition ess :: "float64 list \<Rightarrow> float64" where
  "ess w = fdiv (Fin 1) (np_sum (map (\<lambda>x. fmul x x) w))"

definition ess_normalized :: "float64 list \<Rightarrow> float64" where
  "ess_normalized w = ess (map (\<lambda>x. fdiv x (np_sum w)) w)"

section \<open>Filter transition\<close>

text \<open>
  \<open>__call__\<close>, statement by statement. \<open>Ntot\<close> and \<open>Nborn\<close> are computed by the source
  and never read; \<open>np.atleast_2d\<close> leaves a two-dimensional array as it is.
  \<^verbatim>\<open>
        particles = np.concatenate((np.atleast_2d(self.particles_surv), self.particles_born))
        particles_p = motion_model(particles)
        q_p = prob_birth * (1-q) + prob_surv * q
        weights_p   = np.concatenate((
            prob_surv * q/q_p * self.weights_surv,
            prob_birth * (1 - q)/q_p * self.weights_born
        ))
        weights_p = weights_p / np.sum(weights_p)
        LogLt, LogRatio = likelihood_fn(particles_p, measurements)
        q = _update_existance_prob(weights_p, LogRatio, q_p)
        w = _weight_update(LogLt, weights_p)
        w = w / np.sum(w)
        N_eff = 1/np.sum(w**2)
        N_eff_surv = np.nan
        N_eff_surv_normalized = np.nan
        Nsurv = len(self.particles_surv)
        if Nsurv:
            N_eff_surv = 1/np.sum(w[0:Nsurv]**2)
            N_eff_surv_normalized = 1/np.sum((w[0:Nsurv]/np.sum(w[0:Nsurv]))**2)
        N_eff_born = 1/np.sum(w[Nsurv:]**2)
        N_eff_born_normalized = 1/np.sum((w[Nsurv:]/np.sum(w[Nsurv:]))**2)
        indices_surv_particles = _sysresample(w, Nsuv, self.rng)
        particles_surv = particles_p[indices_surv_particles]
        w_surv = np.ones(Nsuv)/Nsuv
        particles_born = birth_model(measurements, Nbirth, self.rng)
        w_born = np.ones(Nbirth)/Nbirth
        return self.override(...)
  \<close>
\<close>

definition call ::
  "'g Generator \<Rightarrow> ('g, 'm) BerParticleFilter \<Rightarrow> 'g store \<Rightarrow> 'm option \<Rightarrow>
   error + (('g, 'm) BerParticleFilter \<times> 'g store)" where
  "call np s h measurements =
     (let q = prob s in
      bind_err (np_concatenate (particles_surv s) (particles_born s)) (\<lambda>particles.
      let particles_p = motion_model s particles;
          q_p = sc_op fadd (sc_op fmul (prob_birth s) (sc_op fsub (Py (Fin 1)) q))
                  (sc_op fmul (prob_surv s) q)
      in
      bind_err (sc_div (sc_op fmul (prob_surv s) q) q_p) (\<lambda>c_surv.
      bind_err (sc_div (sc_op fmul (prob_birth s) (sc_op fsub (Py (Fin 1)) q)) q_p) (\<lambda>c_born.
      let weights_p0 = map (fmul (sval c_surv)) (weights_surv s)
                       @ map (fmul (sval c_born)) (weights_born s);
          weights_p = map (\<lambda>x. fdiv x (np_sum weights_p0)) weights_p0;
          (LogLt, LogRatio) = likelihood_fn s particles_p measurements
      in
      bind_err (update_existance_prob weights_p LogRatio (sval q_p)) (\<lambda>q'.
      bind_err (weight_update LogLt weights_p) (\<lambda>w0.
      let w = map (\<lambda>x. fdiv x (np_sum w0)) w0;
          n_eff = ess w;
          Nsurv = nrows (particles_surv s);
          n_eff_surv = (if Nsurv \<noteq> 0 then ess (take Nsurv w) else NaN);
          n_eff_surv_normalized = (if Nsurv \<noteq> 0 then ess_normalized (take Nsurv w) else NaN);
          n_eff_born = ess (drop Nsurv w);
          n_eff_born_normalized = ess_normalized (drop Nsurv w)
      in
      bind_err (sysresample np w (Nsuv s) (h (rng s))) (\<lambda>(indices_surv_particles, g1).
      bind_err (take_idx (rows particles_p) indices_surv_particles) (\<lambda>rows_surv.
      bind_err (uniform_weights (Nsuv s)) (\<lambda>w_surv.
      let (p_born, g2) = birth_model s measurements (Nbirth s) g1 in
      bind_err (uniform_weights (Nbirth s)) (\<lambda>w_born.
        override s (h(rng s := g2))
          p_born w_born \<lparr>ncols = ncols particles_p, rows = rows_surv\<rparr> w_surv (Np q')
          n_eff n_eff_surv n_eff_surv_normalized n_eff_born n_eff_born_normalized))))))))))"

section \<open>Queries\<close>

text \<open>
  \<open>w @ P\<close> for a vector and a two-dimensional array: the lengths must agree, and entry
  \<open>d\<close> of the product is the sum of \<open>w[i] * P[i, d]\<close> over the rows.
\<close>

definition vecmat :: "float64 list \<Rightarrow> matrix \<Rightarrow> error + float64 list" where
  "vecmat w P =
     (if length w = nrows P
      then Inr (map (\<lambda>d. np_sum (map2 (\<lambda>wi r. fmul wi (r ! d)) w (rows P))) [0..<ncols P])
      else Inl ValueError)"

text \<open>
  \<^verbatim>\<open>
    def mean(self):
        if len(self.weights_surv) > 0:
            return (self.weights_surv @ self.particles_surv)
        elif len(self.weights_born) > 0:
            return (self.weights_born @ self.particles_born)
        else:
            raise Exception("No particles or weights")
  \<close>
\<close>

definition mean :: "('g, 'm) BerParticleFilter \<Rightarrow> error + float64 list" where
  "mean s =
     (if length (weights_surv s) > 0 then vecmat (weights_surv s) (particles_surv s)
      else if length (weights_born s) > 0 then vecmat (weights_born s) (particles_born s)
      else Inl (Exception ''No particles or weights''))"

text \<open>
  \<open>np.subtract(P, m)\<close> of an array of shape \<open>(n, D')\<close> and a vector of length \<open>D\<close>
  broadcasts the vector over the rows; the column counts must agree unless one is 1.
\<close>

definition np_subtract :: "matrix \<Rightarrow> float64 list \<Rightarrow> error + matrix" where
  "np_subtract P m =
     (if ncols P = length m
        then Inr \<lparr>ncols = length m, rows = map (\<lambda>r. map2 fsub r m) (rows P)\<rparr>
      else if length m = 1
        then Inr \<lparr>ncols = ncols P, rows = map (map (\<lambda>x. fsub x (hd m))) (rows P)\<rparr>
      else if ncols P = 1
        then Inr \<lparr>ncols = length m, rows = map (\<lambda>r. map (\<lambda>y. fsub (hd r) y) m) (rows P)\<rparr>
      else Inl ValueError)"

text \<open>
  \<open>np.einsum("i,id,ic->dc", w, d, d)\<close>: entry \<open>(a, b)\<close> is the sum over \<open>i\<close> of
  \<open>w[i] * d[i, a] * d[i, b]\<close>. The length of \<open>w\<close> and the number of rows of \<open>d\<close> must
  agree unless one of them is 1, which is then repeated.
\<close>

definition einsum_i_id_ic :: "float64 list \<Rightarrow> matrix \<Rightarrow> error + matrix" where
  "einsum_i_id_ic w d =
     (let n = (if length w = nrows d then Some (nrows d)
               else if length w = 1 then Some (nrows d)
               else if nrows d = 1 then Some (length w)
               else None)
      in case n of
           None \<Rightarrow> Inl ValueError
         | Some n \<Rightarrow>
             let wi = (\<lambda>i. if length w = 1 then hd w else w ! i);
                 di = (\<lambda>i. if nrows d = 1 then hd (rows d) else rows d ! i)
             in Inr \<lparr>ncols = ncols d,
                     rows = map (\<lambda>a. map (\<lambda>b.
                              np_sum (map (\<lambda>i. fmul (fmul (wi i) (di i ! a)) (di i ! b)) [0..<n]))
                              [0..<ncols d]) [0..<ncols d]\<rparr>)"

text \<open>
  \<^verbatim>\<open>
    def covar(self):
        mean = self.mean
        d = np.subtract(self.particles_surv, mean)
        return np.einsum("i,id,ic->dc", self.weights_surv, d, d)
  \<close>
\<close>

definition covar :: "('g, 'm) BerParticleFilter \<Rightarrow> error + matrix" where
  "covar s =
     bind_err (mean s) (\<lambda>m.
     bind_err (np_subtract (particles_surv s) m) (\<lambda>d.
       einsum_i_id_ic (weights_surv s) d))"

section \<open>Auxiliary notions for the proofs\<close>

text \<open>
  The real number that \<open>exp\<close> gives for an entry that is finite or \<open>-inf\<close>, and the
  entries that \<open>np.max\<close> can meet when its result is the finite value \<open>c\<close>.
\<close>

definition expv :: "float64 \<Rightarrow> real" where
  "expv a = (case a of Fin r \<Rightarrow> exp r | _ \<Rightarrow> 0)"

definition low :: "real \<Rightarrow> float64 \<Rightarrow> bool" where
  "low c a = (case a of Fin r \<Rightarrow> r \<le> c | MInf \<Rightarrow> True | _ \<Rightarrow> False)"

text \<open>
  The real value of a finite entry; the weight vectors that are finite, nonnegative and
  not all zero; and the log-domain term \<open>L[i] + log(w[i])\<close> of a position, as a real.
\<close>

definition rv :: "float64 \<Rightarrow> real" where
  "rv a = (case a of Fin r \<Rightarrow> r | _ \<Rightarrow> 0)"

definition valid_weights :: "float64 list \<Rightarrow> bool" where
  "valid_weights w = (list_all (\<lambda>a. isfinite a \<and> 0 \<le> rv a) w \<and> list_ex (\<lambda>a. a \<noteq> Fin 0) w)"

definition logterm :: "float64 list \<Rightarrow> float64 list \<Rightarrow> nat \<Rightarrow> real" where
  "logterm L w i = rv (L ! i) + ln (rv (w ! i))"

text \<open>
  Names for three values of the transition: the predicted existence probability \<open>q_p\<close>,
  a vector divided by its sum, and the predicted joint weights \<open>weights_p\<close>.
\<close>

definition q_pred :: "('g, 'm) BerParticleFilter \<Rightarrow> scalar" where
  "q_pred s = sc_op fadd (sc_op fmul (prob_birth s) (sc_op fsub (Py (Fin 1)) (prob s)))
                (sc_op fmul (prob_surv s) (prob s))"

definition normalise :: "float64 list \<Rightarrow> float64 list" where
  "normalise w = map (\<lambda>x. fdiv x (np_sum w)) w"

definition weights_pred :: "scalar \<Rightarrow> scalar \<Rightarrow> ('g, 'm) BerParticleFilter \<Rightarrow> float64 list" where
  "weights_pred c_surv c_born s =
     normalise (map (fmul (sval c_surv)) (weights_surv s) @ map (fmul (sval c_born)) (weights_born s))"

text \<open>
  A generator for the worked examples: every draw of \<open>random()\<close> is \<open>u\<close>, every
  \<open>choice\<close> is the index 0, and the state counts the calls.
\<close>

definition const_rng :: "real \<Rightarrow> nat Generator" where
  "const_rng u = \<lparr>gen_random = (\<lambda>g. (u, Suc g)), gen_choice = (\<lambda>a n g. (replicate n 0, Suc g))\<rparr>"

text \<open>
  The collaborators of \<open>tests/test_call.py\<close>: a likelihood that returns zeros and ones,
  the identity as motion model, and a birth model of three columns (the test draws normal
  variates; here every newborn particle is the origin and the generator advances by one).
\<close>

definition test_likelihood :: "'m Likelihood" where
  "test_likelihood particles measurements =
     (replicate (nrows particles) (Fin 0), replicate (nrows particles) (Fin 1))"

definition test_birth_model :: "(nat, 'm) BirthModel" where
  "test_birth_model measurements n g =
     (\<lparr>ncols = 3, rows = replicate (nat n) [Fin 0, Fin 0, Fin 0]\<rparr>, Suc g)"

definition test_motion_model :: MotionModel where
  "test_motion_model particles = particles"

text \<open>
  Construction with the defaults of the source (\<open>prob = 0\<close>, no populations or weights
  given, all diagnostics \<open>nan\<close>) over a store whose generator 0 is in state 0, and the
  first transition after it, without measurements.
\<close>

definition first_filter ::
  "int \<Rightarrow> int \<Rightarrow> scalar \<Rightarrow> scalar \<Rightarrow> error + ((nat, unit) BerParticleFilter \<times> nat store)" where
  "first_filter n_suv n_birth p_birth p_surv =
     init n_suv n_birth p_birth p_surv test_likelihood test_birth_model test_motion_model
       (Py (Fin 0)) None None None None NaN NaN NaN NaN NaN 0 (\<lambda>r. 0)"

definition first_call ::
  "nat Generator \<Rightarrow> int \<Rightarrow> int \<Rightarrow> scalar \<Rightarrow> scalar \<Rightarrow>
   error + ((nat, unit) BerParticleFilter \<times> nat store)" where
  "first_call np n_suv n_birth p_birth p_surv =
     bind_err (first_filter n_suv n_birth p_birth p_surv) (\<lambda>(s, h). call np s h None)"

text \<open>
  The filter that this construction gives for \<open>Nbirth = 1\<close> and \<open>prob_surv = 0.5\<close>, and
  the four sizes of a filter: surviving particles and weights, newborn particles and
  weights.
\<close>

definition example_filter :: "int \<Rightarrow> scalar \<Rightarrow> (nat, unit) BerParticleFilter" where
  "example_filter n_suv p_birth =
     \<lparr>likelihood_fn = test_likelihood,
      birth_model = test_birth_model,
      motion_model = test_motion_model,
      Nsuv = n_suv,
      Nbirth = 1,
      prob_birth = p_birth,
      prob_surv = Py (Fin (1/2)),
      prob = Py (Fin 0),
      particles_surv = \<lparr>ncols = 3, rows = []\<rparr>,
      weights_surv = [],
      particles_born = \<lparr>ncols = 3, rows = [[Fin 0, Fin 0, Fin 0]]\<rparr>,
      weights_born = [Fin 1],
      N_eff = NaN,
      N_eff_surv = NaN,
      N_eff_surv_normalized = NaN,
      N_eff_born = NaN,
      N_eff_born_normalized = NaN,
      rng = 0\<rparr>"

definition sizes :: "('g, 'm) BerParticleFilter \<Rightarrow> nat \<times> nat \<times> nat \<times> nat" where
  "sizes s = (nrows (particles_surv s), length (weights_surv s),
              nrows (particles_born s), length (weights_born s))"

text \<open>
  The entries that are finite or \<open>-inf\<close>, and the integral
  \<open>I = sum(weight_predictions * exp(LogRatio))\<close> as a real number.
\<close>

definition no_high :: "float64 \<Rightarrow> bool" where
  "no_high a = (case a of Fin r \<Rightarrow> True | MInf \<Rightarrow> True | _ \<Rightarrow> False)"

definition integral :: "float64 list \<Rightarrow> float64 list \<Rightarrow> real" where
  "integral w L = (\<Sum>i\<leftarrow>[0..<length w]. rv (w ! i) * expv (L ! i))"

text \<open>
  The finite, well-formed inputs of a transition: the three probabilities lie in [0,1],
  the predicted existence probability lies strictly between 0 and 1, the weights of both
  populations are finite and nonnegative, the predicted joint weights are not all zero,
  and the likelihood returns one finite log-ratio per weight.
\<close>

definition well_formed_input :: "('g, 'm) BerParticleFilter \<Rightarrow> 'm option \<Rightarrow> bool" where
  "well_formed_input s m =
     (\<exists>q pb ps.
        sval (prob s) = Fin q \<and> 0 \<le> q \<and> q \<le> 1
      \<and> sval (prob_birth s) = Fin pb \<and> 0 \<le> pb \<and> pb \<le> 1
      \<and> sval (prob_surv s) = Fin ps \<and> 0 \<le> ps \<and> ps \<le> 1
      \<and> 0 < pb * (1 - q) + ps * q \<and> pb * (1 - q) + ps * q < 1
      \<and> list_all (\<lambda>a. isfinite a \<and> 0 \<le> rv a) (weights_surv s)
      \<and> list_all (\<lambda>a. isfinite a \<and> 0 \<le> rv a) (weights_born s)
      \<and> 0 < ps * q * (\<Sum>a\<leftarrow>weights_surv s. rv a) + pb * (1 - q) * (\<Sum>a\<leftarrow>weights_born s. rv a)
      \<and> (\<forall>particles. np_concatenate (particles_surv s) (particles_born s) = Inr particles \<longrightarrow>
             length (snd (likelihood_fn s (motion_model s particles) m))
               = length (weights_surv s) + length (weights_born s)
           \<and> list_all isfinite (snd (likelihood_fn s (motion_model s particles) m))))"


text \<open>
  The statements of \<open>__call__\<close> that come before the resampling, from
  \<open>np.concatenate\<close> to the second normalisation of the weights: they return the predicted
  particles \<open>particles_p\<close>, the updated existence probability \<open>q\<close> and the weights \<open>w\<close>.
  \<^verbatim>\<open>
        particles = np.concatenate((np.atleast_2d(self.particles_surv), self.particles_born))
        particles_p = motion_model(particles)
        q_p = prob_birth * (1-q) + prob_surv * q
        weights_p   = np.concatenate((
            prob_surv * q/q_p * self.weights_surv,
            prob_birth * (1 - q)/q_p * self.weights_born
        ))
        weights_p = weights_p / np.sum(weights_p)
        LogLt, LogRatio = likelihood_fn(particles_p, measurements)
        q = _update_existance_prob(weights_p, LogRatio, q_p)
        w = _weight_update(LogLt, weights_p)
        w = w / np.sum(w)
  \<close>
\<close>

definition call_update ::
  "('g, 'm) BerParticleFilter \<Rightarrow> 'm option \<Rightarrow> error + (matrix \<times> float64 \<times> float64 list)" where
  "call_update s measurements =
     (let q = prob s in
      bind_err (np_concatenate (particles_surv s) (particles_born s)) (\<lambda>particles.
      let particles_p = motion_model s particles;
          q_p = sc_op fadd (sc_op fmul (prob_birth s) (sc_op fsub (Py (Fin 1)) q))
                  (sc_op fmul (prob_surv s) q)
      in
      bind_err (sc_div (sc_op fmul (prob_surv s) q) q_p) (\<lambda>c_surv.
      bind_err (sc_div (sc_op fmul (prob_birth s) (sc_op fsub (Py (Fin 1)) q)) q_p) (\<lambda>c_born.
      let weights_p0 = map (fmul (sval c_surv)) (weights_surv s)
                       @ map (fmul (sval c_born)) (weights_born s);
          weights_p = map (\<lambda>x. fdiv x (np_sum weights_p0)) weights_p0;
          (LogLt, LogRatio) = likelihood_fn s particles_p measurements
      in
      bind_err (update_existance_prob weights_p LogRatio (sval q_p)) (\<lambda>q'.
      bind_err (weight_update LogLt weights_p) (\<lambda>w0.
        Inr (particles_p, q', map (\<lambda>x. fdiv x (np_sum w0)) w0)))))))"


section \<open>Properties of the log-sum-exp primitive\<close>

lemma fmax_low: "low c (fmax a b) \<Longrightarrow> low c a \<and> low c b"
  by (cases a; cases b) (auto simp: fmax_def low_def split: if_splits)

lemma fmax_cases: "fmax a b = NaN \<or> fmax a b = a \<or> fmax a b = b"
  by (auto simp: fmax_def)

lemma foldl_fmax_Fin:
  "foldl fmax a as = Fin c \<Longrightarrow> (\<forall>b \<in> set (a # as). low c b) \<and> Fin c \<in> set (a # as)"
proof (induction as arbitrary: a)
  case Nil
  then show ?case by (simp add: low_def)
next
  case (Cons b bs)
  from Cons.prems have "foldl fmax (fmax a b) bs = Fin c" by simp
  from Cons.IH [OF this]
  have all: "\<forall>d \<in> set (fmax a b # bs). low c d" and mem: "Fin c \<in> set (fmax a b # bs)"
    by blast+
  from all have "low c (fmax a b)" by simp
  then have ab: "low c a \<and> low c b" by (rule fmax_low)
  have "fmax a b \<noteq> NaN" using \<open>low c (fmax a b)\<close> by (auto simp: low_def)
  with fmax_cases [of a b] have "fmax a b = a \<or> fmax a b = b" by blast
  with mem have "Fin c \<in> set (a # b # bs)" by auto
  with all ab show ?case by auto
qed

lemma np_max_Fin:
  "np_max x = Inr (Fin c) \<Longrightarrow> (\<forall>b \<in> set x. low c b) \<and> Fin c \<in> set x"
  by (cases x) (auto dest: foldl_fmax_Fin)

lemma np_sum_Nil [simp]: "np_sum [] = Fin 0"
  by (simp add: np_sum_def)

lemma np_sum_Cons [simp]: "np_sum (a # as) = fadd a (np_sum as)"
  by (simp add: np_sum_def)

lemma np_sum_exp:
  "\<forall>b \<in> set x. low c b \<Longrightarrow> np_sum (map fexp x) = Fin (\<Sum>a\<leftarrow>x. expv a)"
proof (induction x)
  case Nil
  then show ?case by simp
next
  case (Cons a as)
  then show ?case by (cases a) (auto simp: low_def expv_def)
qed

lemma np_sum_exp_shift:
  "\<forall>b \<in> set x. low c b \<Longrightarrow>
     np_sum (map (\<lambda>a. fexp (fsub a (Fin d))) x) = Fin (exp (- d) * (\<Sum>a\<leftarrow>x. expv a))"
proof (induction x)
  case Nil
  then show ?case by simp
next
  case (Cons a as)
  then show ?case
    by (cases a) (auto simp: low_def expv_def fsub_def exp_diff exp_minus field_simps)
qed

lemma expv_nonneg: "0 \<le> expv a"
  by (cases a) (auto simp: expv_def)

lemma sum_expv_nonneg: "0 \<le> (\<Sum>a\<leftarrow>x. expv a)"
  by (induction x) (auto simp: expv_nonneg)

lemma sum_expv_member: "a \<in> set x \<Longrightarrow> expv a \<le> (\<Sum>b\<leftarrow>x. expv b)"
proof (induction x)
  case Nil
  then show ?case by simp
next
  case (Cons b bs)
  show ?case
  proof (cases "a = b")
    case True
    then show ?thesis using sum_expv_nonneg [of bs] by simp
  next
    case False
    with Cons have "expv a \<le> (\<Sum>b\<leftarrow>bs. expv b)" by simp
    then show ?thesis using expv_nonneg [of b] by simp
  qed
qed

lemma logsumexp_Fin_max:
  assumes "np_max x = Inr (Fin c)"
  shows "0 < (\<Sum>a\<leftarrow>x. expv a)"
    and "np_sum (map fexp x) = Fin (\<Sum>a\<leftarrow>x. expv a)"
    and "logsumexp x = Inr (Fin (ln (\<Sum>a\<leftarrow>x. expv a)))"
proof -
  from np_max_Fin [OF assms] have lo: "\<forall>b \<in> set x. low c b" and mem: "Fin c \<in> set x"
    by blast+
  from sum_expv_member [OF mem] have "exp c \<le> (\<Sum>a\<leftarrow>x. expv a)" by (simp add: expv_def)
  moreover have "0 < exp c" by simp
  ultimately show pos: "0 < (\<Sum>a\<leftarrow>x. expv a)" by linarith
  show "np_sum (map fexp x) = Fin (\<Sum>a\<leftarrow>x. expv a)" using lo by (rule np_sum_exp)
  have "ln (exp (- c) * (\<Sum>a\<leftarrow>x. expv a)) = - c + ln (\<Sum>a\<leftarrow>x. expv a)"
    using pos by (simp add: ln_mult)
  then show "logsumexp x = Inr (Fin (ln (\<Sum>a\<leftarrow>x. expv a)))"
    using assms pos by (simp add: logsumexp_def bind_err_def np_sum_exp_shift [OF lo])
qed

lemma foldl_fmax_MInf: "foldl fmax (Fin c) (replicate m MInf) = Fin c"
  by (induction m) (auto simp: fmax_def)

lemma np_max_collapse: "np_max (replicate k MInf @ Fin c # replicate m MInf) = Inr (Fin c)"
proof (induction k)
  case 0
  then show ?case by (simp add: foldl_fmax_MInf)
next
  case (Suc k)
  then show ?case
    by (cases k) (auto simp: fmax_def foldl_fmax_MInf)
qed

lemma sum_expv_collapse: "(\<Sum>a\<leftarrow>replicate k MInf @ Fin c # replicate m MInf. expv a) = exp c"
  by (induction k) (auto simp: expv_def sum_list_replicate)

text \<open>
  Claim C8. For a nonempty array whose maximum is finite, \<open>_logsumexp(x)\<close> is
  \<open>log(sum(exp(x)))\<close>: the sum of the exponentials is a positive real \<open>s\<close> and the result
  is \<open>ln s\<close>. It is computed in the max-shifted form \<open>c + log(sum(exp(x - c)))\<close> with
  \<open>c = max(x)\<close>, and it is \<open>c\<close> itself when every other entry is \<open>-inf\<close>.
\<close>

theorem logsumexp_correct:
  assumes "x \<noteq> []" and "np_max x = Inr (Fin c)"
  shows "logsumexp x = Inr (flog (np_sum (map fexp x)))
       \<and> logsumexp x = Inr (fadd (Fin c) (flog (np_sum (map (\<lambda>a. fexp (fsub a (Fin c))) x))))
       \<and> (\<exists>s. 0 < s \<and> np_sum (map fexp x) = Fin s \<and> logsumexp x = Inr (Fin (ln s)))
       \<and> (\<forall>k m. x = replicate k MInf @ Fin c # replicate m MInf \<longrightarrow> logsumexp x = Inr (Fin c))"
proof -
  note r = logsumexp_Fin_max [OF assms(2)]
  have a: "logsumexp x = Inr (flog (np_sum (map fexp x)))" using r by simp
  have b: "logsumexp x = Inr (fadd (Fin c) (flog (np_sum (map (\<lambda>a. fexp (fsub a (Fin c))) x))))"
    using assms(2) by (simp add: logsumexp_def bind_err_def)
  have c: "\<exists>s. 0 < s \<and> np_sum (map fexp x) = Fin s \<and> logsumexp x = Inr (Fin (ln s))"
    using r by blast
  have d: "\<forall>k m. x = replicate k MInf @ Fin c # replicate m MInf \<longrightarrow> logsumexp x = Inr (Fin c)"
  proof (intro allI impI)
    fix k m
    assume "x = replicate k MInf @ Fin c # replicate m MInf"
    then have "(\<Sum>a\<leftarrow>x. expv a) = exp c" by (simp only: sum_expv_collapse)
    with r(3) show "logsumexp x = Inr (Fin c)" by simp
  qed
  from a b c d show ?thesis by blast
qed

theorem logsumexp_correct_witness:
  "[MInf, Fin 2, MInf] \<noteq> [] \<and> np_max [MInf, Fin 2, MInf] = Inr (Fin 2)
   \<and> logsumexp [MInf, Fin 2, MInf] = Inr (flog (np_sum (map fexp [MInf, Fin 2, MInf])))
   \<and> logsumexp [MInf, Fin 2, MInf] = Inr (Fin 2)"
proof -
  have h: "np_max [MInf, Fin 2, MInf] = Inr (Fin 2)" by (simp add: fmax_def)
  have e: "[MInf, Fin 2, MInf] = replicate 1 MInf @ Fin 2 # replicate 1 MInf" by simp
  from logsumexp_correct [OF _ h] e h show ?thesis by blast
qed

section \<open>Properties of the weight update\<close>

lemma rv_Fin [simp]: "rv (Fin r) = r"
  by (simp add: rv_def)

lemma isfinite_rv: "isfinite a \<Longrightarrow> a = Fin (rv a)"
  by (cases a) auto

lemma take_idx_ok: "\<forall>i \<in> set idx. i < length a \<Longrightarrow> take_idx a idx = Inr (map ((!) a) idx)"
  by (induction idx) auto

lemma take_idx_length: "take_idx a idx = Inr r \<Longrightarrow> length r = length idx"
  by (induction idx arbitrary: r) (auto split: if_splits sum.splits)

lemma length_put_idx [simp]: "length (put_idx a idx vals) = length a"
proof -
  have "length (fold (\<lambda>(i, v) acc. acc[i := v]) ps a) = length a" for ps :: "(nat \<times> 'a) list"
    by (induction ps arbitrary: a) auto
  then show ?thesis by (simp add: put_idx_def)
qed

lemma put_idx_nth:
  "k < length a \<Longrightarrow> put_idx a idx (map g idx) ! k = (if k \<in> set idx then g k else a ! k)"
proof (induction idx arbitrary: a)
  case Nil
  then show ?case by (simp add: put_idx_def)
next
  case (Cons i idx)
  have "put_idx a (i # idx) (map g (i # idx)) = put_idx (a[i := g i]) idx (map g idx)"
    by (simp add: put_idx_def)
  moreover have "k < length (a[i := g i])" using Cons.prems by simp
  ultimately show ?case using Cons.IH [of "a[i := g i]"] by (auto simp: nth_list_update)
qed

lemma set_np_nonzero: "set (np_nonzero a) = {i. i < length a \<and> a ! i \<noteq> Fin 0}"
  by (auto simp: np_nonzero_def)

lemma map2_same: "map2 f (map g xs) (map h xs) = map (\<lambda>x. f (g x) (h x)) xs"
  by (induction xs) auto

lemma foldl_fmax_Fins: "foldl fmax (Fin a) (map Fin rs) = Fin (foldl max a rs)"
  by (induction rs arbitrary: a) (auto simp: fmax_def max_def)

lemma np_max_Fins: "rs \<noteq> [] \<Longrightarrow> \<exists>c. np_max (map Fin rs) = Inr (Fin c)"
  by (cases rs) (auto simp: foldl_fmax_Fins)

lemma expv_Fin [simp]: "expv (Fin r) = exp r"
  by (simp add: expv_def)

lemma logsumexp_Fins:
  assumes "rs \<noteq> []"
  shows "0 < (\<Sum>r\<leftarrow>rs. exp r)" and "logsumexp (map Fin rs) = Inr (Fin (ln (\<Sum>r\<leftarrow>rs. exp r)))"
proof -
  from np_max_Fins [OF assms] obtain c where c: "np_max (map Fin rs) = Inr (Fin c)" by blast
  from logsumexp_Fin_max [OF c] show "0 < (\<Sum>r\<leftarrow>rs. exp r)"
    and "logsumexp (map Fin rs) = Inr (Fin (ln (\<Sum>r\<leftarrow>rs. exp r)))"
    by (simp_all add: comp_def)
qed

lemma np_sum_Fins: "np_sum (map (\<lambda>k. Fin (f k)) ks) = Fin (\<Sum>k\<leftarrow>ks. f k)"
  by (induction ks) auto

lemma sum_list_if_filter:
  "(\<Sum>k\<leftarrow>ks. if P k then f k else (0::real)) = (\<Sum>k\<leftarrow>filter P ks. f k)"
  by (induction ks) auto

lemma sum_list_div_const: "(\<Sum>k\<leftarrow>ks. f k / (c::real)) = (\<Sum>k\<leftarrow>ks. f k) / c"
  by (induction ks) (auto simp: add_divide_distrib)

lemma valid_weights_nth:
  "valid_weights w \<Longrightarrow> i < length w \<Longrightarrow> w ! i = Fin (rv (w ! i)) \<and> 0 \<le> rv (w ! i)"
  by (auto simp: valid_weights_def list_all_length dest: isfinite_rv)

lemma valid_weights_nonzero: "valid_weights w \<Longrightarrow> np_nonzero w \<noteq> []"
proof -
  assume "valid_weights w"
  then obtain a where "a \<in> set w" "a \<noteq> Fin 0" by (auto simp: valid_weights_def list_ex_iff)
  then obtain i where "i < length w" "w ! i \<noteq> Fin 0" by (auto simp: in_set_conv_nth)
  then have "i \<in> set (np_nonzero w)" by (simp add: set_np_nonzero)
  then show ?thesis by auto
qed

lemma logterm_at:
  assumes "valid_weights w" and "i \<in> set (np_nonzero w)" and "isfinite (L ! i)"
  shows "fadd (L ! i) (flog (w ! i)) = Fin (logterm L w i)"
proof -
  from assms(2) have i: "i < length w" "w ! i \<noteq> Fin 0" by (simp_all add: set_np_nonzero)
  from valid_weights_nth [OF assms(1) i(1)] i(2)
  have w: "w ! i = Fin (rv (w ! i))" "0 < rv (w ! i)"
    by (auto simp: less_le)
  from assms(3) have "L ! i = Fin (rv (L ! i))" by (rule isfinite_rv)
  then show ?thesis using w
    by (metis fadd.simps(1) flog.simps(1) logterm_def)
qed

lemma logterms:
  assumes "valid_weights w"
    and "\<forall>i \<in> set (np_nonzero w). isfinite (L ! i)"
  shows "map (\<lambda>i. fadd (L ! i) (flog (w ! i))) (np_nonzero w)
       = map Fin (map (logterm L w) (np_nonzero w))"
  using assms by (simp add: logterm_at)

lemma logterm_sum_pos:
  assumes "valid_weights w"
  shows "0 < (\<Sum>i\<leftarrow>np_nonzero w. exp (logterm L w i))"
  using logsumexp_Fins(1) [of "map (logterm L w) (np_nonzero w)"] valid_weights_nonzero [OF assms]
  by (simp add: comp_def)

lemma weight_update_value:
  assumes len: "length L = length w"
    and vw: "valid_weights w"
    and fin: "\<forall>i \<in> set (np_nonzero w). isfinite (L ! i)"
  shows "weight_update L w =
           Inr (map (\<lambda>k. if w ! k \<noteq> Fin 0
                          then Fin (exp (logterm L w k) / (\<Sum>i\<leftarrow>np_nonzero w. exp (logterm L w i)))
                          else Fin 0) [0..<length w])"
proof -
  let ?nz = "np_nonzero w"
  let ?S = "\<Sum>i\<leftarrow>?nz. exp (logterm L w i)"
  let ?g = "\<lambda>k. Fin (exp (logterm L w k) / ?S)"
  have S: "0 < ?S" using vw by (rule logterm_sum_pos)
  have idx: "\<forall>i \<in> set ?nz. i < length L" using len by (simp add: set_np_nonzero)
  have y: "take_idx L ?nz = Inr (map ((!) L) ?nz)" using idx by (rule take_idx_ok)
  have x: "map2 fadd (map ((!) L) ?nz) (map (\<lambda>i. flog (w ! i)) ?nz)
             = map Fin (map (logterm L w) ?nz)"
    using logterms [OF vw fin] by (simp add: map2_same)
  have ne: "map (logterm L w) ?nz \<noteq> []" using valid_weights_nonzero [OF vw] by simp
  have l: "logsumexp (map Fin (map (logterm L w) ?nz)) = Inr (Fin (ln ?S))"
    using logsumexp_Fins(2) [OF ne] by (simp add: comp_def)
  have vals: "map (\<lambda>a. fexp (fsub a (Fin (ln ?S)))) (map Fin (map (logterm L w) ?nz)) = map ?g ?nz"
    using S by (simp add: fsub_def exp_diff)
  have wu: "weight_update L w = Inr (put_idx (replicate (length w) (Fin 0)) ?nz (map ?g ?nz))"
    by (simp only: weight_update_def Let_def bind_err_def y x l vals sum.case)
  have "put_idx (replicate (length w) (Fin 0)) ?nz (map ?g ?nz)
          = map (\<lambda>k. if w ! k \<noteq> Fin 0 then ?g k else Fin 0) [0..<length w]"
  proof (rule nth_equalityI)
    show "length (put_idx (replicate (length w) (Fin 0)) ?nz (map ?g ?nz))
            = length (map (\<lambda>k. if w ! k \<noteq> Fin 0 then ?g k else Fin 0) [0..<length w])"
      by simp
  next
    fix k
    assume "k < length (put_idx (replicate (length w) (Fin 0)) ?nz (map ?g ?nz))"
    then have k: "k < length w" by simp
    then have "put_idx (replicate (length w) (Fin 0)) ?nz (map ?g ?nz) ! k
                 = (if k \<in> set ?nz then ?g k else Fin 0)"
      by (simp add: put_idx_nth)
    then show "put_idx (replicate (length w) (Fin 0)) ?nz (map ?g ?nz) ! k
                 = map (\<lambda>k. if w ! k \<noteq> Fin 0 then ?g k else Fin 0) [0..<length w] ! k"
      using k by (simp add: set_np_nonzero)
  qed
  with wu show ?thesis by simp
qed

lemma weight_update_sum:
  assumes "valid_weights w"
  shows "np_sum (map (\<lambda>k. if w ! k \<noteq> Fin 0
                          then Fin (exp (logterm L w k) / (\<Sum>i\<leftarrow>np_nonzero w. exp (logterm L w i)))
                          else Fin 0) [0..<length w]) = Fin 1"
proof -
  let ?S = "\<Sum>i\<leftarrow>np_nonzero w. exp (logterm L w i)"
  have S: "0 < ?S" using assms by (rule logterm_sum_pos)
  have "(\<lambda>k. if w ! k \<noteq> Fin 0 then Fin (exp (logterm L w k) / ?S) else Fin 0)
          = (\<lambda>k. Fin (if w ! k \<noteq> Fin 0 then exp (logterm L w k) / ?S else 0))"
    by auto
  then have "np_sum (map (\<lambda>k. if w ! k \<noteq> Fin 0 then Fin (exp (logterm L w k) / ?S) else Fin 0)
                 [0..<length w])
          = Fin (\<Sum>k\<leftarrow>[0..<length w]. if w ! k \<noteq> Fin 0 then exp (logterm L w k) / ?S else 0)"
    by (simp only: np_sum_Fins)
  also have "(\<Sum>k\<leftarrow>[0..<length w]. if w ! k \<noteq> Fin 0 then exp (logterm L w k) / ?S else 0)
          = (\<Sum>k\<leftarrow>np_nonzero w. exp (logterm L w k) / ?S)"
    by (simp only: sum_list_if_filter np_nonzero_def)
  also have "\<dots> = ?S / ?S" by (rule sum_list_div_const)
  also have "\<dots> = 1" using S by simp
  finally show ?thesis .
qed

text \<open>
  Claim C4. For finite, nonnegative, not-all-zero \<open>weight_predictions\<close> and a \<open>LogLt\<close>
  that is finite where the weight is not zero, \<open>_weight_update\<close> returns a vector of the
  same length that is 0 where \<open>weight_predictions\<close> is 0, \<open>exp(x - logsumexp(x))\<close> with
  \<open>x = LogLt + log(weight_predictions)\<close> at the other positions, nonnegative everywhere,
  and of sum 1.
\<close>

theorem weight_update_normalised:
  assumes "length LogLt = length weight_predictions"
    and "valid_weights weight_predictions"
    and "\<forall>i<length weight_predictions.
           weight_predictions ! i \<noteq> Fin 0 \<longrightarrow> isfinite (LogLt ! i)"
  shows "\<exists>wp l. weight_update LogLt weight_predictions = Inr wp
           \<and> length wp = length weight_predictions
           \<and> logsumexp (map (\<lambda>i. fadd (LogLt ! i) (flog (weight_predictions ! i)))
                           (np_nonzero weight_predictions)) = Inr l
           \<and> (\<forall>i<length weight_predictions. weight_predictions ! i = Fin 0 \<longrightarrow> wp ! i = Fin 0)
           \<and> (\<forall>i<length weight_predictions. weight_predictions ! i \<noteq> Fin 0 \<longrightarrow>
                 wp ! i = fexp (fsub (fadd (LogLt ! i) (flog (weight_predictions ! i))) l))
           \<and> (\<forall>i<length weight_predictions. \<exists>r\<ge>0. wp ! i = Fin r)
           \<and> np_sum wp = Fin 1"
proof -
  let ?w = weight_predictions
  let ?nz = "np_nonzero ?w"
  let ?S = "\<Sum>i\<leftarrow>?nz. exp (logterm LogLt ?w i)"
  let ?wp = "map (\<lambda>k. if ?w ! k \<noteq> Fin 0 then Fin (exp (logterm LogLt ?w k) / ?S) else Fin 0)
               [0..<length ?w]"
  have fin: "\<forall>i \<in> set ?nz. isfinite (LogLt ! i)" using assms(3) by (simp add: set_np_nonzero)
  have S: "0 < ?S" using assms(2) by (rule logterm_sum_pos)
  have ne: "map (logterm LogLt ?w) ?nz \<noteq> []" using valid_weights_nonzero [OF assms(2)] by simp
  have a: "weight_update LogLt ?w = Inr ?wp"
    using assms(1,2) fin by (rule weight_update_value)
  have b: "length ?wp = length ?w" by simp
  have c: "logsumexp (map (\<lambda>i. fadd (LogLt ! i) (flog (?w ! i))) ?nz) = Inr (Fin (ln ?S))"
    using logsumexp_Fins(2) [OF ne] by (simp add: logterms [OF assms(2) fin] comp_def)
  have d: "\<forall>i<length ?w. ?w ! i = Fin 0 \<longrightarrow> ?wp ! i = Fin 0" by simp
  have e: "\<forall>i<length ?w. ?w ! i \<noteq> Fin 0 \<longrightarrow>
             ?wp ! i = fexp (fsub (fadd (LogLt ! i) (flog (?w ! i))) (Fin (ln ?S)))"
  proof (intro allI impI)
    fix i
    assume i: "i < length ?w" "?w ! i \<noteq> Fin 0"
    then have "i \<in> set ?nz" by (simp add: set_np_nonzero)
    with assms(2) fin have "fadd (LogLt ! i) (flog (?w ! i)) = Fin (logterm LogLt ?w i)"
      by (simp add: logterm_at)
    then show "?wp ! i = fexp (fsub (fadd (LogLt ! i) (flog (?w ! i))) (Fin (ln ?S)))"
      using i S by (simp add: fsub_def exp_diff)
  qed
  have f: "\<forall>i<length ?w. \<exists>r\<ge>0. ?wp ! i = Fin r"
    using S by (auto simp: less_imp_le)
  have g: "np_sum ?wp = Fin 1" using assms(2) by (rule weight_update_sum)
  from a b c d e f g show ?thesis by blast
qed
theorem weight_update_normalised_witness:
  "length [NaN, Fin 0] = length [Fin 0, Fin 1] \<and> valid_weights [Fin 0, Fin 1]
   \<and> isfinite ([NaN, Fin 0] ! 1)
   \<and> (\<exists>wp. weight_update [NaN, Fin 0] [Fin 0, Fin 1] = Inr wp \<and> length wp = 2 \<and> np_sum wp = Fin 1)"
proof -
  have h1: "length [NaN, Fin 0] = length [Fin 0, Fin 1]" by simp
  have h2: "valid_weights [Fin 0, Fin 1]" by (simp add: valid_weights_def)
  have h3: "\<forall>i<length [Fin 0, Fin 1]. [Fin 0, Fin 1] ! i \<noteq> Fin 0 \<longrightarrow> isfinite ([NaN, Fin 0] ! i)"
    by (simp add: less_Suc_eq)
  from weight_update_normalised [OF h1 h2 h3] h1 h2 show ?thesis by auto
qed

lemma weight_update_example: "weight_update [NaN, Fin 0] [Fin 0, Fin 1] = Inr [Fin 0, Fin 1]"
  by (simp add: weight_update_def np_nonzero_def bind_err_def logsumexp_def put_idx_def fsub_def)

section \<open>Properties of the existence-probability update\<close>

lemma logsumexp_nonempty: "x \<noteq> [] \<Longrightarrow> \<exists>l. logsumexp x = Inr l"
  by (cases x) (auto simp: logsumexp_def bind_err_def)

lemma fmin_not_above: "\<not> fless (Fin 1) (fmin a (Fin 1))"
  by (cases a) (auto simp: fmin_def)

lemma fmin_fexp_range: "fmin (fexp a) (Fin 1) = NaN \<or> (\<exists>r. fmin (fexp a) (Fin 1) = Fin r \<and> 0 \<le> r \<and> r \<le> 1)"
  by (cases a) (auto simp: fmin_def)

lemma np_nonzero_nonempty: "list_ex (\<lambda>a. a \<noteq> Fin 0) w \<Longrightarrow> np_nonzero w \<noteq> []"
proof -
  assume "list_ex (\<lambda>a. a \<noteq> Fin 0) w"
  then obtain a where "a \<in> set w" "a \<noteq> Fin 0" by (auto simp: list_ex_iff)
  then obtain i where "i < length w" "w ! i \<noteq> Fin 0" by (auto simp: in_set_conv_nth)
  then have "i \<in> set (np_nonzero w)" by (simp add: set_np_nonzero)
  then show ?thesis by auto
qed

text \<open>
  For any weights with a nonzero entry the update returns, and what it returns is the
  clamped exponential.
\<close>

lemma update_existance_prob_returns:
  assumes len: "length L = length w" and nz: "list_ex (\<lambda>a. a \<noteq> Fin 0) w"
  shows "\<exists>l1 l2.
           logsumexp (map (\<lambda>i. fadd (L ! i) (flog (w ! i))) (np_nonzero w)) = Inr l1
         \<and> logsumexp (flog (fsub (Fin 1) qp)
                      # map (\<lambda>i. fadd (fadd (L ! i) (flog qp)) (flog (w ! i))) (np_nonzero w)) = Inr l2
         \<and> update_existance_prob w L qp = Inr (fmin (fexp (fsub (fadd l1 (flog qp)) l2)) (Fin 1))"
proof -
  let ?nz = "np_nonzero w"
  let ?x1 = "map (\<lambda>i. fadd (L ! i) (flog (w ! i))) ?nz"
  let ?x2 = "flog (fsub (Fin 1) qp) # map (\<lambda>i. fadd (fadd (L ! i) (flog qp)) (flog (w ! i))) ?nz"
  have idx: "\<forall>i \<in> set ?nz. i < length L" using len by (simp add: set_np_nonzero)
  have y: "take_idx L ?nz = Inr (map ((!) L) ?nz)" using idx by (rule take_idx_ok)
  have x1: "map2 fadd (map ((!) L) ?nz) (map flog (map (\<lambda>i. w ! i) ?nz)) = ?x1"
    by (simp add: map2_same comp_def)
  have x2: "map2 fadd (map (\<lambda>a. fadd a (flog qp)) (map ((!) L) ?nz)) (map flog (map (\<lambda>i. w ! i) ?nz))
              = map (\<lambda>i. fadd (fadd (L ! i) (flog qp)) (flog (w ! i))) ?nz"
    by (simp add: map2_same comp_def)
  have "?x1 \<noteq> []" using np_nonzero_nonempty [OF nz] by simp
  then obtain l1 where l1: "logsumexp ?x1 = Inr l1" using logsumexp_nonempty by blast
  obtain l2 where l2: "logsumexp ?x2 = Inr l2" using logsumexp_nonempty [of ?x2] by blast
  have "update_existance_prob w L qp = Inr (fmin (fexp (fsub (fadd l1 (flog qp)) l2)) (Fin 1))"
    by (simp only: update_existance_prob_def Let_def bind_err_def y x1 x2 l1 l2 sum.case
          np_min.simps foldl.simps)
  with l1 l2 show ?thesis by blast
qed

lemma logterm_at_shift:
  assumes "valid_weights w" and "i \<in> set (np_nonzero w)" and "isfinite (L ! i)" and "0 < p"
  shows "fadd (fadd (L ! i) (Fin (ln p))) (flog (w ! i)) = Fin (logterm L w i + ln p)"
proof -
  from assms(2) have i: "i < length w" "w ! i \<noteq> Fin 0" by (simp_all add: set_np_nonzero)
  from valid_weights_nth [OF assms(1) i(1)] i(2)
  have w: "w ! i = Fin (rv (w ! i))" "0 < rv (w ! i)"
    by (auto simp: less_le)
  from assms(3) have l: "L ! i = Fin (rv (L ! i))" by (rule isfinite_rv)
  have "fadd (fadd (Fin (rv (L ! i))) (Fin (ln p))) (flog (Fin (rv (w ! i))))
          = Fin (logterm L w i + ln p)"
    using w(2) assms(4) by (simp add: logterm_def)
  with w(1) l show ?thesis by simp
qed

lemma sum_list_exp_shift: "(\<Sum>i\<leftarrow>xs. exp (f i + ln p)) = p * (\<Sum>i\<leftarrow>xs. exp (f i))" if "0 < p" for p :: real
  using that by (induction xs) (auto simp: exp_add algebra_simps)

lemma update_existance_prob_value:
  assumes len: "length L = length w"
    and vw: "valid_weights w"
    and fin: "\<forall>i \<in> set (np_nonzero w). isfinite (L ! i)"
    and p: "0 < p" "p < 1"
  shows "update_existance_prob w L (Fin p) =
           Inr (Fin ((\<Sum>i\<leftarrow>np_nonzero w. exp (logterm L w i)) * p
                     / (1 - p + p * (\<Sum>i\<leftarrow>np_nonzero w. exp (logterm L w i)))))"
proof -
  let ?nz = "np_nonzero w"
  let ?I = "\<Sum>i\<leftarrow>?nz. exp (logterm L w i)"
  let ?D = "1 - p + p * ?I"
  have I: "0 < ?I" using vw by (rule logterm_sum_pos)
  have D: "0 < ?D" using I p by (simp add: add_pos_pos)
  have nzv: "list_ex (\<lambda>a. a \<noteq> Fin 0) w" using vw by (simp add: valid_weights_def)
  from update_existance_prob_returns [OF len nzv, of "Fin p"] obtain l1 l2 where
    l1: "logsumexp (map (\<lambda>i. fadd (L ! i) (flog (w ! i))) ?nz) = Inr l1" and
    l2: "logsumexp (flog (fsub (Fin 1) (Fin p))
                      # map (\<lambda>i. fadd (fadd (L ! i) (flog (Fin p))) (flog (w ! i))) ?nz) = Inr l2" and
    u: "update_existance_prob w L (Fin p)
          = Inr (fmin (fexp (fsub (fadd l1 (flog (Fin p))) l2)) (Fin 1))"
    by blast
  have ne: "map (logterm L w) ?nz \<noteq> []" using valid_weights_nonzero [OF vw] by simp
  have "logsumexp (map (\<lambda>i. fadd (L ! i) (flog (w ! i))) ?nz) = Inr (Fin (ln ?I))"
    using logsumexp_Fins(2) [OF ne] by (simp add: logterms [OF vw fin] comp_def)
  with l1 have l1v: "l1 = Fin (ln ?I)" by simp
  have x2: "flog (fsub (Fin 1) (Fin p))
              # map (\<lambda>i. fadd (fadd (L ! i) (flog (Fin p))) (flog (w ! i))) ?nz
            = map Fin (ln (1 - p) # map (\<lambda>i. logterm L w i + ln p) ?nz)"
    using p vw fin by (simp add: fsub_def logterm_at_shift)
  have "logsumexp (map Fin (ln (1 - p) # map (\<lambda>i. logterm L w i + ln p) ?nz))
          = Inr (Fin (ln (\<Sum>r\<leftarrow>ln (1 - p) # map (\<lambda>i. logterm L w i + ln p) ?nz. exp r)))"
    by (rule logsumexp_Fins(2)) simp
  also have "(\<Sum>r\<leftarrow>ln (1 - p) # map (\<lambda>i. logterm L w i + ln p) ?nz. exp r) = ?D"
    using p by (simp add: comp_def sum_list_exp_shift)
  finally have "logsumexp (map Fin (ln (1 - p) # map (\<lambda>i. logterm L w i + ln p) ?nz))
                  = Inr (Fin (ln ?D))" .
  moreover have "logsumexp (map Fin (ln (1 - p) # map (\<lambda>i. logterm L w i + ln p) ?nz)) = Inr l2"
    using l2 by (simp only: x2)
  ultimately have l2v: "l2 = Fin (ln ?D)" by simp
  have "exp (ln ?I + ln p - ln ?D) = ?I * p / ?D"
    using I D p by (simp add: exp_add exp_diff)
  then have q: "fexp (fsub (fadd l1 (flog (Fin p))) l2) = Fin (?I * p / ?D)"
    using p by (simp add: l1v l2v fsub_def)
  have "?I * p < ?D" using p by (simp add: algebra_simps)
  then have "?I * p / ?D < 1" using D by simp
  then have "fmin (Fin (?I * p / ?D)) (Fin 1) = Fin (?I * p / ?D)"
    by (simp add: fmin_def)
  with u q show ?thesis by simp
qed

lemma update_existance_prob_range:
  assumes "length L = length w" "valid_weights w" "\<forall>i \<in> set (np_nonzero w). isfinite (L ! i)"
    "0 < p" "p < 1"
  shows "\<exists>r. update_existance_prob w L (Fin p) = Inr (Fin r) \<and> 0 < r \<and> r < 1"
proof -
  let ?I = "\<Sum>i\<leftarrow>np_nonzero w. exp (logterm L w i)"
  let ?D = "1 - p + p * ?I"
  have I: "0 < ?I" using assms(2) by (rule logterm_sum_pos)
  have D: "0 < ?D" using I assms(4,5) by (simp add: add_pos_pos)
  have "?I * p < ?D" using assms(4,5) by (simp add: algebra_simps)
  then have "?I * p / ?D < 1" using D by simp
  moreover have "0 < ?I * p / ?D" using I D assms(4) by simp
  ultimately show ?thesis using update_existance_prob_value [OF assms] by blast
qed

lemma linear_terms_sum:
  assumes len: "length L = length w" and vw: "valid_weights w" and fin: "list_all isfinite L"
  shows "np_sum (map2 fmul w (map fexp L)) = Fin (\<Sum>i\<leftarrow>np_nonzero w. exp (logterm L w i))"
proof -
  have t: "map2 fmul w (map fexp L)
          = map (\<lambda>k. Fin (if w ! k \<noteq> Fin 0 then exp (logterm L w k) else 0)) [0..<length w]"
  proof (rule nth_equalityI)
    show "length (map2 fmul w (map fexp L))
            = length (map (\<lambda>k. Fin (if w ! k \<noteq> Fin 0 then exp (logterm L w k) else 0)) [0..<length w])"
      using len by simp
  next
    fix k
    assume "k < length (map2 fmul w (map fexp L))"
    then have k: "k < length w" "k < length L" using len by simp_all
    from valid_weights_nth [OF vw k(1)] have w: "w ! k = Fin (rv (w ! k))" "0 \<le> rv (w ! k)" by simp_all
    from fin k(2) have l: "L ! k = Fin (rv (L ! k))" by (simp add: list_all_length isfinite_rv)
    have "fmul (Fin (rv (w ! k))) (fexp (Fin (rv (L ! k))))
            = Fin (if Fin (rv (w ! k)) \<noteq> Fin 0 then exp (rv (L ! k) + ln (rv (w ! k))) else 0)"
      using w(2) by (auto simp: exp_add)
    then have "fmul (w ! k) (fexp (L ! k))
                 = Fin (if w ! k \<noteq> Fin 0 then exp (logterm L w k) else 0)"
      using w(1) l by (simp add: logterm_def)
    then show "map2 fmul w (map fexp L) ! k
                 = map (\<lambda>k. Fin (if w ! k \<noteq> Fin 0 then exp (logterm L w k) else 0)) [0..<length w] ! k"
      using k by simp
  qed
  show ?thesis
    by (simp only: t np_sum_Fins sum_list_if_filter np_nonzero_def)
qed

lemma update_existance_prob_linear_domain_value:
  assumes len: "length L = length w" and vw: "valid_weights w" and fin: "list_all isfinite L"
    and p: "0 < p" "p < 1"
  shows "update_existance_prob_linear_domain w L (Fin p) =
           Inr (Fin ((\<Sum>i\<leftarrow>np_nonzero w. exp (logterm L w i)) * p
                     / (1 - p + p * (\<Sum>i\<leftarrow>np_nonzero w. exp (logterm L w i)))))"
proof -
  let ?I = "\<Sum>i\<leftarrow>np_nonzero w. exp (logterm L w i)"
  have I: "0 < ?I" using vw by (rule logterm_sum_pos)
  have D: "0 < 1 - p + p * ?I" using I p by (simp add: add_pos_pos)
  have b: "np_binop fmul w (map fexp L) = Inr (map2 fmul w (map fexp L))"
    using len by (simp add: np_binop_def)
  show ?thesis
    using D by (simp add: update_existance_prob_linear_domain_def Let_def bind_err_def b
        linear_terms_sum [OF len vw fin] fsub_def)
qed

text \<open>
  Where the integral is positive the two formulations agree.
\<close>

lemma existance_updates_agree:
  assumes "length LogRatio = length weight_predictions" and "valid_weights weight_predictions"
    and "list_all isfinite LogRatio" and "0 < p" "p < 1"
  shows "update_existance_prob weight_predictions LogRatio (Fin p)
       = update_existance_prob_linear_domain weight_predictions LogRatio (Fin p)"
proof -
  have "\<forall>i \<in> set (np_nonzero weight_predictions). isfinite (LogRatio ! i)"
    using assms(1,3) by (simp add: list_all_length set_np_nonzero)
  with assms show ?thesis
    by (simp add: update_existance_prob_value update_existance_prob_linear_domain_value)
qed

text \<open>
  With log-ratios that may be \<open>-inf\<close>: the direct formula returns
  \<open>I*qp / (1 - qp + qp*I)\<close> for every such input; the log-domain code returns the same
  value where the integral is positive, and \<open>nan\<close> where the integral is 0.
\<close>

lemma sum_list_scale: "(\<Sum>a\<leftarrow>w. c * f a) = c * (\<Sum>a\<leftarrow>w. f a)" for c :: real
  by (induction w) (auto simp: algebra_simps)

lemma foldl_fmax_no_high:
  assumes "no_high a" and "\<forall>b \<in> set as. no_high b"
  shows "no_high (foldl fmax a as)
       \<and> (isfinite a \<or> (\<exists>b \<in> set as. isfinite b) \<longrightarrow> isfinite (foldl fmax a as))"
  using assms
proof (induction as arbitrary: a)
  case Nil
  then show ?case by simp
next
  case (Cons b bs)
  from Cons.prems have nb: "no_high b" and rest: "\<forall>c \<in> set bs. no_high c" by simp_all
  have m: "no_high (fmax a b)" "isfinite a \<or> isfinite b \<longrightarrow> isfinite (fmax a b)"
    using Cons.prems(1) nb by (cases a; cases b; simp add: no_high_def fmax_def)+
  from Cons.IH [OF m(1) rest] m(2) show ?case by auto
qed

lemma np_max_no_high:
  assumes "list_all no_high x" and "list_ex isfinite x"
  shows "\<exists>c. np_max x = Inr (Fin c)"
proof (cases x)
  case Nil
  with assms(2) show ?thesis by simp
next
  case (Cons a as)
  with assms have "no_high a" "\<forall>b \<in> set as. no_high b" "isfinite a \<or> (\<exists>b \<in> set as. isfinite b)"
    by (auto simp: list_all_iff list_ex_iff)
  with foldl_fmax_no_high [of a as] have "isfinite (foldl fmax a as)" by blast
  then obtain c where "foldl fmax a as = Fin c" by (cases "foldl fmax a as") auto
  with Cons show ?thesis by simp
qed

lemma foldl_fmax_all_MInf: "\<forall>b \<in> set as. b = MInf \<Longrightarrow> foldl fmax MInf as = MInf"
  by (induction as) (auto simp: fmax_def)

lemma np_sum_NaN [simp]: "np_sum (NaN # as) = NaN"
  by simp

lemma logsumexp_all_MInf:
  assumes "x \<noteq> []" and "\<forall>b \<in> set x. b = MInf"
  shows "logsumexp x = Inr NaN"
proof (cases x)
  case Nil
  with assms(1) show ?thesis by simp
next
  case (Cons a as)
  with assms(2) have a: "a = MInf" and as: "\<forall>b \<in> set as. b = MInf" by simp_all
  have "np_max x = Inr MInf" using Cons a foldl_fmax_all_MInf [OF as] by simp
  then show ?thesis using Cons a by (simp add: logsumexp_def bind_err_def fsub_def)
qed

lemma no_high_cases: "no_high a \<Longrightarrow> a = MInf \<or> a = Fin (rv a)"
  by (cases a) (auto simp: no_high_def)

lemma expv_MInf [simp]: "expv MInf = 0"
  by (simp add: expv_def)

lemma weight_at_nonzero:
  assumes "valid_weights w" and "i \<in> set (np_nonzero w)"
  shows "w ! i = Fin (rv (w ! i))" and "0 < rv (w ! i)"
proof -
  from assms(2) have i: "i < length w" "w ! i \<noteq> Fin 0" by (simp_all add: set_np_nonzero)
  from valid_weights_nth [OF assms(1) i(1)] i(2)
  show "w ! i = Fin (rv (w ! i))" and "0 < rv (w ! i)" by (auto simp: less_le)
qed

lemma term1_no_high:
  assumes "valid_weights w" and "i \<in> set (np_nonzero w)" and "no_high (L ! i)"
  shows "no_high (fadd (L ! i) (flog (w ! i)))"
    and "expv (fadd (L ! i) (flog (w ! i))) = rv (w ! i) * expv (L ! i)"
    and "isfinite (L ! i) \<longrightarrow> isfinite (fadd (L ! i) (flog (w ! i)))"
    and "L ! i = MInf \<longrightarrow> fadd (L ! i) (flog (w ! i)) = MInf"
proof -
  note w = weight_at_nonzero [OF assms(1,2)]
  have f: "flog (w ! i) = Fin (ln (rv (w ! i)))" using w by (metis flog.simps(1))
  from no_high_cases [OF assms(3)]
  show "no_high (fadd (L ! i) (flog (w ! i)))"
    and "expv (fadd (L ! i) (flog (w ! i))) = rv (w ! i) * expv (L ! i)"
    and "isfinite (L ! i) \<longrightarrow> isfinite (fadd (L ! i) (flog (w ! i)))"
    and "L ! i = MInf \<longrightarrow> fadd (L ! i) (flog (w ! i)) = MInf"
    using w(2) by (cases "L ! i"; simp add: f no_high_def exp_add)+
qed

lemma term2_no_high:
  assumes "valid_weights w" and "i \<in> set (np_nonzero w)" and "no_high (L ! i)" and "0 < p"
  shows "no_high (fadd (fadd (L ! i) (flog (Fin p))) (flog (w ! i)))"
    and "expv (fadd (fadd (L ! i) (flog (Fin p))) (flog (w ! i))) = p * (rv (w ! i) * expv (L ! i))"
proof -
  note w = weight_at_nonzero [OF assms(1,2)]
  have f: "flog (w ! i) = Fin (ln (rv (w ! i)))" using w by (metis flog.simps(1))
  from no_high_cases [OF assms(3)]
  show "no_high (fadd (fadd (L ! i) (flog (Fin p))) (flog (w ! i)))"
    and "expv (fadd (fadd (L ! i) (flog (Fin p))) (flog (w ! i))) = p * (rv (w ! i) * expv (L ! i))"
    using w(2) assms(4) by (cases "L ! i"; simp add: f no_high_def exp_add)+
qed

lemma integral_nonzero:
  "integral w L = (\<Sum>i\<leftarrow>np_nonzero w. rv (w ! i) * expv (L ! i))"
proof -
  have "(\<lambda>i. rv (w ! i) * expv (L ! i))
          = (\<lambda>i. if w ! i \<noteq> Fin 0 then rv (w ! i) * expv (L ! i) else 0)"
    by auto
  then have "integral w L
               = (\<Sum>i\<leftarrow>[0..<length w]. if w ! i \<noteq> Fin 0 then rv (w ! i) * expv (L ! i) else 0)"
    unfolding integral_def by simp
  then show ?thesis by (simp only: sum_list_if_filter np_nonzero_def)
qed

lemma sum_list_nonneg_pos:
  assumes "\<forall>i \<in> set xs. 0 \<le> f i" and "0 < (\<Sum>i\<leftarrow>xs. f i)"
  shows "\<exists>i \<in> set xs. 0 < (f i :: real)"
proof (rule ccontr)
  assume "\<not> (\<exists>i \<in> set xs. 0 < f i)"
  with assms(1) have "\<forall>i \<in> set xs. f i = 0" by (force simp: not_less)
  then have "(\<Sum>i\<leftarrow>xs. f i) = 0" by (induction xs) auto
  with assms(2) show False by simp
qed

lemma sum_list_nonneg_zero:
  assumes "\<forall>i \<in> set xs. 0 \<le> f i" and "(\<Sum>i\<leftarrow>xs. f i) = 0"
  shows "\<forall>i \<in> set xs. f i = (0 :: real)"
  using assms
proof (induction xs)
  case Nil
  then show ?case by simp
next
  case (Cons x xs)
  have "0 \<le> f x" using Cons.prems(1) by simp
  moreover have "0 \<le> (\<Sum>i\<leftarrow>xs. f i)" using Cons.prems(1) by (intro sum_list_nonneg) auto
  ultimately have "0 \<le> f x" "0 \<le> (\<Sum>i\<leftarrow>xs. f i)" by simp_all
  with Cons.prems(2) have "f x = 0" "(\<Sum>i\<leftarrow>xs. f i) = 0" by simp_all
  with Cons show ?case by simp
qed

lemma integral_nonneg:
  assumes "valid_weights w"
  shows "0 \<le> integral w L"
proof -
  have "0 \<le> rv (w ! i) * expv (L ! i)" if "i \<in> set (np_nonzero w)" for i
    using weight_at_nonzero(2) [OF assms that] expv_nonneg [of "L ! i"] by simp
  then show ?thesis unfolding integral_nonzero by (intro sum_list_nonneg) auto
qed

lemma sum_list_map_cong:
  "(\<And>x. x \<in> set xs \<Longrightarrow> f x = g x) \<Longrightarrow> sum_list (map f xs) = sum_list (map g xs)"
  by (induction xs) auto

lemma log_domain_sums:
  assumes vw: "valid_weights w"
    and nh: "\<forall>i \<in> set (np_nonzero w). no_high (L ! i)"
    and p: "0 < p"
  shows "(\<Sum>a\<leftarrow>map (\<lambda>i. fadd (L ! i) (flog (w ! i))) (np_nonzero w). expv a) = integral w L"
    and "(\<Sum>a\<leftarrow>map (\<lambda>i. fadd (fadd (L ! i) (flog (Fin p))) (flog (w ! i))) (np_nonzero w). expv a)
           = p * integral w L"
proof -
  have "(\<Sum>i\<leftarrow>np_nonzero w. expv (fadd (L ! i) (flog (w ! i))))
          = (\<Sum>i\<leftarrow>np_nonzero w. rv (w ! i) * expv (L ! i))"
    using vw nh by (intro sum_list_map_cong term1_no_high(2)) auto
  then show "(\<Sum>a\<leftarrow>map (\<lambda>i. fadd (L ! i) (flog (w ! i))) (np_nonzero w). expv a) = integral w L"
    by (simp only: integral_nonzero map_map comp_def)
  have "(\<Sum>i\<leftarrow>np_nonzero w. expv (fadd (fadd (L ! i) (flog (Fin p))) (flog (w ! i))))
          = (\<Sum>i\<leftarrow>np_nonzero w. p * (rv (w ! i) * expv (L ! i)))"
    using vw nh p by (intro sum_list_map_cong term2_no_high(2)) auto
  then have "(\<Sum>a\<leftarrow>map (\<lambda>i. fadd (fadd (L ! i) (flog (Fin p))) (flog (w ! i))) (np_nonzero w). expv a)
          = (\<Sum>i\<leftarrow>np_nonzero w. p * (rv (w ! i) * expv (L ! i)))"
    by (simp only: map_map comp_def)
  also have "\<dots> = p * integral w L"
    by (simp only: sum_list_scale integral_nonzero)
  finally show "(\<Sum>a\<leftarrow>map (\<lambda>i. fadd (fadd (L ! i) (flog (Fin p))) (flog (w ! i)))
                     (np_nonzero w). expv a) = p * integral w L" .
qed

lemma log_domain_denominator:
  assumes vw: "valid_weights w"
    and nh: "\<forall>i \<in> set (np_nonzero w). no_high (L ! i)"
    and p: "0 < p" "p < 1"
  shows "logsumexp (flog (fsub (Fin 1) (Fin p))
            # map (\<lambda>i. fadd (fadd (L ! i) (flog (Fin p))) (flog (w ! i))) (np_nonzero w))
         = Inr (Fin (ln (1 - p + p * integral w L)))"
proof -
  let ?x2 = "flog (fsub (Fin 1) (Fin p))
            # map (\<lambda>i. fadd (fadd (L ! i) (flog (Fin p))) (flog (w ! i))) (np_nonzero w)"
  have h: "flog (fsub (Fin 1) (Fin p)) = Fin (ln (1 - p))" using p by (simp add: fsub_def)
  have "list_all no_high ?x2"
    unfolding list_all_iff
  proof (rule ballI)
    fix a
    assume "a \<in> set ?x2"
    then consider "a = flog (fsub (Fin 1) (Fin p))"
      | i where "i \<in> set (np_nonzero w)"
          "a = fadd (fadd (L ! i) (flog (Fin p))) (flog (w ! i))"
      by auto
    then show "no_high a"
    proof cases
      case 1
      then show ?thesis by (simp add: h no_high_def)
    next
      case 2
      with nh have "no_high (L ! i)" by blast
      from term2_no_high(1) [OF vw 2(1) this p(1)] 2(2) show ?thesis by (simp only:)
    qed
  qed
  moreover have "isfinite (flog (fsub (Fin 1) (Fin p)))" by (simp add: h)
  then have "list_ex isfinite ?x2" by (simp only: list_ex_Cons_iff simp_thms)
  ultimately obtain c where "np_max ?x2 = Inr (Fin c)" using np_max_no_high by blast
  from logsumexp_Fin_max(3) [OF this]
  have "logsumexp ?x2 = Inr (Fin (ln (\<Sum>a\<leftarrow>?x2. expv a)))" .
  moreover have "(\<Sum>a\<leftarrow>?x2. expv a) = 1 - p + p * integral w L"
    using log_domain_sums(2) [OF vw nh p(1)] p by (simp add: h)
  ultimately show ?thesis by (simp only:)
qed

lemma log_domain_positive:
  assumes len: "length L = length w" and vw: "valid_weights w"
    and nh: "\<forall>i \<in> set (np_nonzero w). no_high (L ! i)"
    and p: "0 < p" "p < 1" and pos: "0 < integral w L"
  shows "update_existance_prob w L (Fin p)
           = Inr (Fin (integral w L * p / (1 - p + p * integral w L)))"
proof -
  let ?nz = "np_nonzero w"
  let ?I = "integral w L"
  let ?D = "1 - p + p * ?I"
  let ?x1 = "map (\<lambda>i. fadd (L ! i) (flog (w ! i))) ?nz"
  have D: "0 < ?D" using pos p by (simp add: add_pos_pos)
  have nzv: "list_ex (\<lambda>a. a \<noteq> Fin 0) w" using vw by (simp add: valid_weights_def)
  from update_existance_prob_returns [OF len nzv, of "Fin p"] obtain l1 l2 where
    l1: "logsumexp ?x1 = Inr l1" and
    l2: "logsumexp (flog (fsub (Fin 1) (Fin p))
            # map (\<lambda>i. fadd (fadd (L ! i) (flog (Fin p))) (flog (w ! i))) ?nz) = Inr l2" and
    u: "update_existance_prob w L (Fin p)
          = Inr (fmin (fexp (fsub (fadd l1 (flog (Fin p))) l2)) (Fin 1))"
    by blast
  have nonneg: "\<forall>i \<in> set ?nz. 0 \<le> rv (w ! i) * expv (L ! i)"
    using weight_at_nonzero(2) [OF vw] expv_nonneg by (simp add: less_imp_le)
  from sum_list_nonneg_pos [OF nonneg] pos obtain i where
    i: "i \<in> set ?nz" "0 < rv (w ! i) * expv (L ! i)"
    unfolding integral_nonzero by blast
  from i(2) have "expv (L ! i) \<noteq> 0" by auto
  with no_high_cases [of "L ! i"] nh i(1) have "isfinite (L ! i)"
    by (metis expv_MInf isfinite.simps(1))
  with term1_no_high(3) [OF vw i(1)] nh i(1) have "isfinite (fadd (L ! i) (flog (w ! i)))" by blast
  with i(1) have ex: "list_ex isfinite ?x1" by (auto simp: list_ex_iff)
  have "list_all no_high ?x1" using vw nh by (simp add: list_all_iff term1_no_high(1))
  with ex obtain c where "np_max ?x1 = Inr (Fin c)" using np_max_no_high by blast
  from logsumexp_Fin_max(3) [OF this] have "logsumexp ?x1 = Inr (Fin (ln (\<Sum>a\<leftarrow>?x1. expv a)))" .
  then have "logsumexp ?x1 = Inr (Fin (ln ?I))"
    by (simp only: log_domain_sums(1) [OF vw nh p(1)])
  with l1 have l1v: "l1 = Fin (ln ?I)" by simp
  from l2 log_domain_denominator [OF vw nh p] have l2v: "l2 = Fin (ln ?D)" by simp
  have "exp (ln ?I + ln p - ln ?D) = ?I * p / ?D"
    using pos D p by (simp add: exp_add exp_diff)
  then have q: "fexp (fsub (fadd l1 (flog (Fin p))) l2) = Fin (?I * p / ?D)"
    using p by (simp add: l1v l2v fsub_def)
  have "?I * p < ?D" using p by (simp add: algebra_simps)
  then have "?I * p / ?D < 1" using D by simp
  then have "fmin (Fin (?I * p / ?D)) (Fin 1) = Fin (?I * p / ?D)"
    by (simp add: fmin_def)
  with u q show ?thesis by simp
qed

lemma log_domain_zero:
  assumes len: "length L = length w" and vw: "valid_weights w"
    and nh: "\<forall>i \<in> set (np_nonzero w). no_high (L ! i)"
    and zero: "integral w L = 0"
  shows "update_existance_prob w L qp = Inr NaN"
proof -
  let ?nz = "np_nonzero w"
  let ?x1 = "map (\<lambda>i. fadd (L ! i) (flog (w ! i))) ?nz"
  have nzv: "list_ex (\<lambda>a. a \<noteq> Fin 0) w" using vw by (simp add: valid_weights_def)
  from update_existance_prob_returns [OF len nzv, of qp] obtain l1 l2 where
    l1: "logsumexp ?x1 = Inr l1" and
    u: "update_existance_prob w L qp
          = Inr (fmin (fexp (fsub (fadd l1 (flog qp)) l2)) (Fin 1))"
    by blast
  have nonneg: "\<forall>i \<in> set ?nz. 0 \<le> rv (w ! i) * expv (L ! i)"
    using weight_at_nonzero(2) [OF vw] expv_nonneg by (simp add: less_imp_le)
  from sum_list_nonneg_zero [OF nonneg] zero
  have z: "\<forall>i \<in> set ?nz. rv (w ! i) * expv (L ! i) = 0"
    unfolding integral_nonzero by blast
  have "fadd (L ! i) (flog (w ! i)) = MInf" if "i \<in> set ?nz" for i
  proof -
    from z that weight_at_nonzero(2) [OF vw that] have e: "expv (L ! i) = 0" by auto
    from no_high_cases [of "L ! i"] nh that have "L ! i = MInf \<or> L ! i = Fin (rv (L ! i))" by blast
    moreover have "L ! i \<noteq> Fin (rv (L ! i))"
    proof
      assume "L ! i = Fin (rv (L ! i))"
      then have "expv (L ! i) = exp (rv (L ! i))" by (metis expv_Fin)
      with e show False by simp
    qed
    ultimately have "L ! i = MInf" by blast
    with term1_no_high(4) [OF vw that] nh that show ?thesis by blast
  qed
  then have "\<forall>b \<in> set ?x1. b = MInf" by auto
  moreover have "?x1 \<noteq> []" using valid_weights_nonzero [OF vw] by simp
  ultimately have "logsumexp ?x1 = Inr NaN" by (rule logsumexp_all_MInf [rotated])
  with l1 have "l1 = NaN" by simp
  with u show ?thesis by (simp add: fsub_def fmin_def)
qed

lemma linear_domain_general:
  assumes len: "length L = length w" and vw: "valid_weights w"
    and nh: "list_all no_high L" and p: "0 < p" "p < 1"
  shows "update_existance_prob_linear_domain w L (Fin p)
           = Inr (Fin (integral w L * p / (1 - p + p * integral w L)))"
proof -
  let ?I = "integral w L"
  have t: "map2 fmul w (map fexp L) = map (\<lambda>k. Fin (rv (w ! k) * expv (L ! k))) [0..<length w]"
  proof (rule nth_equalityI)
    show "length (map2 fmul w (map fexp L))
            = length (map (\<lambda>k. Fin (rv (w ! k) * expv (L ! k))) [0..<length w])"
      using len by simp
  next
    fix k
    assume "k < length (map2 fmul w (map fexp L))"
    then have k: "k < length w" "k < length L" using len by simp_all
    from valid_weights_nth [OF vw k(1)] have w: "w ! k = Fin (rv (w ! k))" by simp
    from nh k(2) have "no_high (L ! k)" by (simp add: list_all_length)
    from no_high_cases [OF this] have "fexp (L ! k) = Fin (expv (L ! k))"
      by (cases "L ! k") (auto simp: expv_def)
    with w have "fmul (w ! k) (fexp (L ! k)) = Fin (rv (w ! k) * expv (L ! k))"
      by (metis fmul.simps(1))
    then show "map2 fmul w (map fexp L) ! k
                 = map (\<lambda>k. Fin (rv (w ! k) * expv (L ! k))) [0..<length w] ! k"
      using k by simp
  qed
  have sum: "np_sum (map2 fmul w (map fexp L)) = Fin ?I"
    by (simp only: t np_sum_Fins integral_def)
  have "0 \<le> ?I" using vw by (rule integral_nonneg)
  then have "0 \<le> p * ?I" using p by simp
  then have D: "0 < 1 - p + p * ?I" using p by linarith
  have b: "np_binop fmul w (map fexp L) = Inr (map2 fmul w (map fexp L))"
    using len by (simp add: np_binop_def)
  show ?thesis
    using D by (simp add: update_existance_prob_linear_domain_def Let_def bind_err_def b sum fsub_def)
qed

text \<open>
  Claim C2. The log-domain update is to return what the direct formula
  \<open>q = I*qp / (1 - qp + qp*I)\<close> returns whenever the integral \<open>I\<close> is finite. With a
  single particle of weight 1 whose log-ratio is \<open>-inf\<close> the integral is 0 and the direct
  formula gives 0; the log-domain code computes \<open>-inf - (-inf)\<close> inside \<open>_logsumexp\<close> and
  returns \<open>nan\<close>.
\<close>

theorem existance_update_minus_inf:
  "update_existance_prob [Fin 1] [MInf] (Fin (1/2)) = Inr NaN
   \<and> update_existance_prob_linear_domain [Fin 1] [MInf] (Fin (1/2)) = Inr (Fin 0)"
  by (simp add: update_existance_prob_def update_existance_prob_linear_domain_def np_nonzero_def
      bind_err_def logsumexp_def fsub_def np_binop_def fmax_def fmin_def)

section \<open>Properties of the systematic resampler\<close>

lemma bind_err_Inr: "bind_err m f = Inr r \<longleftrightarrow> (\<exists>a. m = Inr a \<and> f a = Inr r)"
  by (cases m) (auto simp: bind_err_def)

lemma sysresample_loop_result:
  assumes "sysresample_loop N pos cs i j idx = Inr r"
    and "length idx = N" and "\<forall>k<i. idx ! k < length cs" and "i \<le> N"
  shows "length r = N \<and> (\<forall>k<N. r ! k < length cs)"
  using assms
proof (induction N pos cs i j idx rule: sysresample_loop.induct)
  case (1 N pos cs i j idx)
  show ?case
  proof (cases "i < N")
    case False
    with "1.prems" have "r = idx" "i = N" by (simp_all add: sysresample_loop.simps [of N pos cs i j idx])
    with "1.prems" show ?thesis by simp
  next
    case i: True
    show ?thesis
    proof (cases "j < length cs")
      case False
      with i "1.prems"(1) show ?thesis by (simp add: sysresample_loop.simps [of N pos cs i j idx])
    next
      case j: True
      show ?thesis
      proof (cases "fless (pos ! i) (cs ! j)")
        case True
        with i j "1.prems"(1) have "sysresample_loop N pos cs (i + 1) j (idx[i := j]) = Inr r"
          by (simp add: sysresample_loop.simps [of N pos cs i j idx])
        moreover have "length (idx[i := j]) = N" using "1.prems"(2) by simp
        moreover have "\<forall>k<i + 1. idx[i := j] ! k < length cs"
          using "1.prems"(2,3) i j by (auto simp: nth_list_update less_Suc_eq)
        moreover have "i + 1 \<le> N" using i by simp
        ultimately show ?thesis using "1.IH"(1) [OF i j True] by blast
      next
        case False
        with i j "1.prems"(1) have "sysresample_loop N pos cs i (j + 1) idx = Inr r"
          by (simp add: sysresample_loop.simps [of N pos cs i j idx])
        then show ?thesis using "1.IH"(2) [OF i j False] "1.prems"(2,3,4) by blast
      qed
    qed
  qed
qed

lemma sysresample_loop_error:
  assumes "sysresample_loop N pos cs i j idx = Inl e" and "j \<le> length cs"
  shows "e = IndexError (length cs) (length cs)"
  using assms
proof (induction N pos cs i j idx rule: sysresample_loop.induct)
  case (1 N pos cs i j idx)
  show ?case
  proof (cases "i < N")
    case False
    with "1.prems" show ?thesis by (simp add: sysresample_loop.simps [of N pos cs i j idx])
  next
    case i: True
    show ?thesis
    proof (cases "j < length cs")
      case False
      with i "1.prems" show ?thesis by (simp add: sysresample_loop.simps [of N pos cs i j idx])
    next
      case j: True
      show ?thesis
      proof (cases "fless (pos ! i) (cs ! j)")
        case True
        with i j "1.prems"(1) have "sysresample_loop N pos cs (i + 1) j (idx[i := j]) = Inl e"
          by (simp add: sysresample_loop.simps [of N pos cs i j idx])
        then show ?thesis using "1.IH"(1) [OF i j True] "1.prems"(2) by blast
      next
        case False
        with i j "1.prems"(1) have "sysresample_loop N pos cs i (j + 1) idx = Inl e"
          by (simp add: sysresample_loop.simps [of N pos cs i j idx])
        moreover have "j + 1 \<le> length cs" using j by simp
        ultimately show ?thesis using "1.IH"(2) [OF i j False] by blast
      qed
    qed
  qed
qed

lemma sysresample_loop_returns:
  assumes "\<forall>k<N. fless (pos ! k) (cs ! (length cs - 1))" and "j < length cs"
  shows "\<exists>r. sysresample_loop N pos cs i j idx = Inr r"
  using assms
proof (induction N pos cs i j idx rule: sysresample_loop.induct)
  case (1 N pos cs i j idx)
  show ?case
  proof (cases "i < N")
    case False
    then show ?thesis by (simp add: sysresample_loop.simps [of N pos cs i j idx])
  next
    case i: True
    note j = "1.prems"(2)
    show ?thesis
    proof (cases "fless (pos ! i) (cs ! j)")
      case True
      from "1.IH"(1) [OF i j True "1.prems"] obtain r where
        "sysresample_loop N pos cs (i + 1) j (idx[i := j]) = Inr r" by blast
      with i j True show ?thesis by (simp add: sysresample_loop.simps [of N pos cs i j idx])
    next
      case False
      from "1.prems"(1) i have "fless (pos ! i) (cs ! (length cs - 1))" by simp
      with False have "j \<noteq> length cs - 1" by auto
      with j have "j + 1 < length cs" by simp
      from "1.IH"(2) [OF i j False "1.prems"(1) this] obtain r where
        "sysresample_loop N pos cs i (j + 1) idx = Inr r" by blast
      with i j False show ?thesis by (simp add: sysresample_loop.simps [of N pos cs i j idx])
    qed
  qed
qed

lemma length_cumsum_from [simp]: "length (cumsum_from acc a) = length a"
  by (induction a arbitrary: acc) auto

lemma length_np_cumsum [simp]: "length (np_cumsum a) = length a"
  by (simp add: np_cumsum_def)

lemma nat_min_int: "0 \<le> n \<Longrightarrow> nat (min (int k) n) = min k (nat n)"
  by (cases "int k \<le> n") (auto simp: min_def)

text \<open>The resampler on weights without \<open>nan\<close>, for a count that is not negative.\<close>

lemma sysresample_no_nan:
  assumes "\<not> list_ex isnan weights" and "0 \<le> min (int (length weights)) n"
  shows "sysresample np weights n g =
           bind_err
             (sysresample_loop (nat (min (int (length weights)) n))
                (map (\<lambda>k. fdiv (Fin (fst (gen_random np g) + real k))
                              (Fin (real_of_int (min (int (length weights)) n))))
                   [0..<nat (min (int (length weights)) n)])
                (np_cumsum weights) 0 0 (replicate (nat (min (int (length weights)) n)) 0))
             (\<lambda>r. Inr (r, snd (gen_random np g)))"
proof -
  have "\<not> min (int (length weights)) n < 0" using assms(2) by simp
  with assms(1) show ?thesis by (simp only: sysresample_def Let_def case_prod_beta if_False)
qed

lemma sysresample_negative:
  assumes "n < 0"
  shows "sysresample np weights n g = Inl ValueError"
  using assms by (simp add: sysresample_def Let_def case_prod_beta min_def)

lemma sysresample_nan:
  assumes "list_ex isnan weights" and "0 \<le> n"
  shows "sysresample np weights n g
           = Inr (gen_choice np (length weights) (min (length weights) (nat n)) g)"
proof -
  have "\<not> min (int (length weights)) n < 0" using assms(2) by simp
  with assms(1) show ?thesis
    by (simp only: sysresample_def Let_def if_True if_False nat_min_int [OF assms(2)])
qed

lemma sysresample_Inr_no_nan:
  assumes "\<not> list_ex isnan weights" and "sysresample np weights n g = Inr (idx, g')"
  shows "0 \<le> n \<and> length idx = min (length weights) (nat n) \<and> (\<forall>i \<in> set idx. i < length weights)
         \<and> g' = snd (gen_random np g)"
proof -
  have n: "0 \<le> n" using assms(2) sysresample_negative [of n np weights g] by (cases "n < 0") auto
  then have N: "0 \<le> min (int (length weights)) n" by simp
  let ?N = "nat (min (int (length weights)) n)"
  have eq: "?N = min (length weights) (nat n)" using n by (rule nat_min_int)
  from assms(2) sysresample_no_nan [OF assms(1) N, of np g] obtain r where
    r: "sysresample_loop ?N
          (map (\<lambda>k. fdiv (Fin (fst (gen_random np g) + real k))
                        (Fin (real_of_int (min (int (length weights)) n)))) [0..<?N])
          (np_cumsum weights) 0 0 (replicate ?N 0) = Inr r"
    and "idx = r" "g' = snd (gen_random np g)"
    by (auto simp: bind_err_Inr)
  from sysresample_loop_result [OF r] have "length r = ?N \<and> (\<forall>k<?N. r ! k < length weights)"
    by simp
  then have "length r = ?N \<and> (\<forall>i \<in> set r. i < length weights)"
    by (auto simp: in_set_conv_nth)
  with \<open>idx = r\<close> \<open>g' = snd (gen_random np g)\<close> n eq show ?thesis by simp
qed

lemma sysresample_Inl_no_nan:
  assumes "\<not> list_ex isnan weights" and "0 \<le> n" and "sysresample np weights n g = Inl e"
  shows "e = IndexError (length weights) (length weights)"
proof -
  have N: "0 \<le> min (int (length weights)) n" using assms(2) by simp
  from assms(3) sysresample_no_nan [OF assms(1) N, of np g] obtain e' where
    "sysresample_loop (nat (min (int (length weights)) n))
          (map (\<lambda>k. fdiv (Fin (fst (gen_random np g) + real k))
                        (Fin (real_of_int (min (int (length weights)) n))))
             [0..<nat (min (int (length weights)) n)])
          (np_cumsum weights) 0 0 (replicate (nat (min (int (length weights)) n)) 0) = Inl e'"
    and "e = e'"
    by (auto simp: bind_err_def split: sum.splits)
  from sysresample_loop_error [OF this(1)] \<open>e = e'\<close> show ?thesis by simp
qed

lemma fless_mono: "a \<le> b \<Longrightarrow> fless (Fin b) c \<Longrightarrow> fless (Fin a) c"
  by (cases c) auto

lemma sysresample_returns:
  assumes nan: "\<not> list_ex isnan weights" and n: "1 \<le> n" and ne: "weights \<noteq> []"
    and top: "fless (Fin ((fst (gen_random np g) + real (min (length weights) (nat n) - 1))
                          / real (min (length weights) (nat n))))
                (last (np_cumsum weights))"
  shows "\<exists>idx. sysresample np weights n g = Inr (idx, snd (gen_random np g))"
proof -
  let ?u = "fst (gen_random np g)"
  let ?N = "min (length weights) (nat n)"
  let ?M = "nat (min (int (length weights)) n)"
  let ?cs = "np_cumsum weights"
  have N: "0 \<le> min (int (length weights)) n" using n by simp
  have n0: "0 \<le> n" using n by simp
  have eq: "?M = ?N" using n0 by (rule nat_min_int)
  have "min (int (length weights)) n = int ?M" using N by (simp only: int_nat_eq if_True)
  then have "real_of_int (min (int (length weights)) n) = real_of_int (int ?M)"
    by (rule arg_cong)
  also have "\<dots> = real ?M" by (rule of_int_of_nat_eq)
  finally have eq': "real_of_int (min (int (length weights)) n) = real ?N"
    by (simp only: eq)
  have Npos: "0 < ?N" using n ne by simp
  let ?pos = "map (\<lambda>k. fdiv (Fin (?u + real k)) (Fin (real_of_int (min (int (length weights)) n))))
                [0..<?M]"
  have cs: "?cs \<noteq> []" using ne by (metis length_np_cumsum length_0_conv)
  have "\<forall>k<?M. fless (?pos ! k) (?cs ! (length ?cs - 1))"
  proof (intro allI impI)
    fix k
    assume "k < ?M"
    then have k: "k < ?N" by (simp only: eq)
    then have "k \<le> ?N - 1" by linarith
    then have "real k \<le> real (?N - 1)" by (simp only: of_nat_le_iff)
    then have "?u + real k \<le> ?u + real (?N - 1)" by linarith
    then have "(?u + real k) / real ?N \<le> (?u + real (?N - 1)) / real ?N"
      by (rule divide_right_mono) simp
    from fless_mono [OF this top] have "fless (Fin ((?u + real k) / real ?N)) (last ?cs)" .
    moreover have "last ?cs = ?cs ! (length ?cs - 1)" using cs by (rule last_conv_nth)
    moreover have "real ?N \<noteq> 0" using Npos by simp
    then have "fdiv (Fin (?u + real k)) (Fin (real ?N)) = Fin ((?u + real k) / real ?N)"
      by simp
    then have "?pos ! k = Fin ((?u + real k) / real ?N)"
      using \<open>k < ?M\<close> by (simp only: nth_map length_upt minus_nat.diff_0 nth_upt add_0 eq')
    ultimately show "fless (?pos ! k) (?cs ! (length ?cs - 1))" by (simp only:)
  qed
  moreover have "0 < length ?cs" using ne by simp
  ultimately obtain r where "sysresample_loop ?M ?pos ?cs 0 0 (replicate ?M 0) = Inr r"
    using sysresample_loop_returns by blast
  then show ?thesis
    by (simp only: sysresample_no_nan [OF nan N] bind_err_def sum.case) blast
qed

text \<open>
  Claim C5, as the code has it. For weights without \<open>nan\<close> and a requested count of at
  least 1, the selection loop has no clamp. Whenever the resampler returns, it returns
  \<open>min(len(weights), N)\<close> indices, each of them a valid position. Whenever it raises, the
  pointer has reached \<open>len(cumsum)\<close> and the read \<open>cumsum[j]\<close> there raised the
  \<open>IndexError\<close>. It returns whenever the last selection position is below the final
  cumulative sum.
\<close>

theorem sysresample_pointer:
  assumes "\<not> list_ex isnan weights" and "1 \<le> n"
  shows "(\<forall>idx g'. sysresample np weights n g = Inr (idx, g') \<longrightarrow>
            length idx = min (length weights) (nat n) \<and> (\<forall>i \<in> set idx. i < length weights))
       \<and> (\<forall>e. sysresample np weights n g = Inl e \<longrightarrow>
            e = IndexError (length weights) (length weights))
       \<and> (weights \<noteq> [] \<and>
            fless (Fin ((fst (gen_random np g) + real (min (length weights) (nat n) - 1))
                        / real (min (length weights) (nat n))))
              (last (np_cumsum weights)) \<longrightarrow>
            (\<exists>idx. sysresample np weights n g = Inr (idx, snd (gen_random np g))))"
proof -
  have n0: "0 \<le> n" using assms(2) by simp
  have a: "\<forall>idx g'. sysresample np weights n g = Inr (idx, g') \<longrightarrow>
            length idx = min (length weights) (nat n) \<and> (\<forall>i \<in> set idx. i < length weights)"
  proof (intro allI impI)
    fix idx g'
    assume "sysresample np weights n g = Inr (idx, g')"
    from sysresample_Inr_no_nan [OF assms(1) this]
    show "length idx = min (length weights) (nat n) \<and> (\<forall>i \<in> set idx. i < length weights)"
      by (elim conjE) (rule conjI)
  qed
  have b: "\<forall>e. sysresample np weights n g = Inl e \<longrightarrow>
            e = IndexError (length weights) (length weights)"
  proof (intro allI impI)
    fix e
    assume "sysresample np weights n g = Inl e"
    with assms(1) n0 show "e = IndexError (length weights) (length weights)"
      by (rule sysresample_Inl_no_nan)
  qed
  have c: "weights \<noteq> [] \<and>
            fless (Fin ((fst (gen_random np g) + real (min (length weights) (nat n) - 1))
                        / real (min (length weights) (nat n))))
              (last (np_cumsum weights)) \<longrightarrow>
            (\<exists>idx. sysresample np weights n g = Inr (idx, snd (gen_random np g)))"
    using sysresample_returns [OF assms] by (intro impI) (elim conjE)
  show ?thesis using a b c by (intro conjI)
qed

theorem sysresample_pointer_witness:
  "\<not> list_ex isnan [Fin 1] \<and> (1::int) \<le> 1
   \<and> (\<exists>idx. sysresample (const_rng (1/2)) [Fin 1] 1 0 = Inr (idx, Suc 0)
          \<and> length idx = 1 \<and> list_all (\<lambda>i. i < 1) idx)"
proof -
  have h1: "\<not> list_ex isnan [Fin 1]" by simp
  have h2: "(1::int) \<le> 1" by simp
  have h3: "[Fin 1] \<noteq> [] \<and>
            fless (Fin ((fst (gen_random (const_rng (1/2)) (0::nat)) + real (min (length [Fin 1]) (nat 1) - 1))
                        / real (min (length [Fin 1]) (nat 1))))
              (last (np_cumsum [Fin 1]))"
    by (simp add: const_rng_def np_cumsum_def)
  from sysresample_pointer [OF h1 h2, of "const_rng (1/2)" 0] h3
  obtain idx where a: "sysresample (const_rng (1/2)) [Fin 1] 1 0
                         = Inr (idx, snd (gen_random (const_rng (1/2)) (0::nat)))"
    by blast
  then have a': "sysresample (const_rng (1/2)) [Fin 1] 1 0 = Inr (idx, Suc 0)"
    by (simp add: const_rng_def)
  from sysresample_pointer [OF h1 h2, of "const_rng (1/2)" 0] a'
  have "length idx = 1 \<and> (\<forall>i \<in> set idx. i < 1)" by auto
  with a' h1 h2 show ?thesis by (auto simp: list_all_iff)
qed

text \<open>
  Claim C5, as stated, fails: for the single weight 0.5 and the draw 0.75 the position
  0.75 is not below the final cumulative sum 0.5, the pointer moves to index 1 and the read
  of \<open>cumsum[1]\<close> raises; a clamped pointer would have selected index 0.
\<close>

theorem sysresample_no_clamp:
  "sysresample (const_rng (3/4)) [Fin (1/2)] 1 0 = Inl (IndexError 1 1)"
  by (simp add: sysresample_def const_rng_def np_cumsum_def bind_err_def sysresample_loop.simps)

text \<open>
  Claim C6. With a \<open>nan\<close> among the weights and a count that is not negative,
  \<open>_sysresample\<close> returns what \<open>rng.choice(len(weights), min(len(weights), N))\<close> returns:
  that many uniform draws from the positions of the population, the same for every weight
  vector of this length that holds a \<open>nan\<close>.
\<close>

theorem sysresample_nan_uniform:
  assumes "list_ex isnan weights" and "0 \<le> n"
  shows "sysresample np weights n g
           = Inr (gen_choice np (length weights) (min (length weights) (nat n)) g)
       \<and> (\<forall>weights'. length weights' = length weights \<and> list_ex isnan weights' \<longrightarrow>
             sysresample np weights' n g = sysresample np weights n g)"
  using assms by (simp add: sysresample_nan)

theorem sysresample_nan_uniform_witness:
  "list_ex isnan [NaN, Fin 1] \<and> (0::int) \<le> 5
   \<and> sysresample (const_rng (1/2)) [NaN, Fin 1] 5 0 = Inr ([0, 0], Suc 0)
   \<and> sysresample (const_rng (1/2)) [Fin 7, NaN] 5 0 = sysresample (const_rng (1/2)) [NaN, Fin 1] 5 0"
proof -
  have h1: "list_ex isnan [NaN, Fin 1]" by simp
  have h2: "(0::int) \<le> 5" by simp
  have "length [Fin 7, NaN] = length [NaN, Fin 1] \<and> list_ex isnan [Fin 7, NaN]" by simp
  with sysresample_nan_uniform [OF h1 h2, of "const_rng (1/2)" 0] h1 h2 show ?thesis
    by (simp add: const_rng_def numeral_2_eq_2)
qed

section \<open>Properties of the transition\<close>

lemma override_eq:
  "override s h pb wb ps ws q a b c d e =
     Inr (s\<lparr>particles_born := pb, weights_born := wb, particles_surv := ps, weights_surv := ws,
             prob := q, N_eff := a, N_eff_surv := b, N_eff_surv_normalized := c,
             N_eff_born := d, N_eff_born_normalized := e\<rparr>, h)"
  by (cases s) (simp add: override_def init_def bind_err_def)

lemma call_Inr:
  assumes "call np s h m = Inr (s', h')"
  shows "\<exists>particles c_surv c_born q' w0 ig rows_surv w_surv w_born.
           np_concatenate (particles_surv s) (particles_born s) = Inr particles
         \<and> sc_div (sc_op fmul (prob_surv s) (prob s)) (q_pred s) = Inr c_surv
         \<and> sc_div (sc_op fmul (prob_birth s) (sc_op fsub (Py (Fin 1)) (prob s))) (q_pred s) = Inr c_born
         \<and> update_existance_prob (weights_pred c_surv c_born s)
              (snd (likelihood_fn s (motion_model s particles) m)) (sval (q_pred s)) = Inr q'
         \<and> weight_update (fst (likelihood_fn s (motion_model s particles) m))
              (weights_pred c_surv c_born s) = Inr w0
         \<and> sysresample np (normalise w0) (Nsuv s) (h (rng s)) = Inr ig
         \<and> take_idx (rows (motion_model s particles)) (fst ig) = Inr rows_surv
         \<and> uniform_weights (Nsuv s) = Inr w_surv
         \<and> uniform_weights (Nbirth s) = Inr w_born
         \<and> s' = s\<lparr>particles_born := fst (birth_model s m (Nbirth s) (snd ig)),
                   weights_born := w_born,
                   particles_surv := \<lparr>ncols = ncols (motion_model s particles), rows = rows_surv\<rparr>,
                   weights_surv := w_surv,
                   prob := Np q',
                   N_eff := ess (normalise w0),
                   N_eff_surv := (if nrows (particles_surv s) \<noteq> 0
                      then ess (take (nrows (particles_surv s)) (normalise w0)) else NaN),
                   N_eff_surv_normalized := (if nrows (particles_surv s) \<noteq> 0
                      then ess_normalized (take (nrows (particles_surv s)) (normalise w0)) else NaN),
                   N_eff_born := ess (drop (nrows (particles_surv s)) (normalise w0)),
                   N_eff_born_normalized :=
                      ess_normalized (drop (nrows (particles_surv s)) (normalise w0))\<rparr>
         \<and> h' = h(rng s := snd (birth_model s m (Nbirth s) (snd ig)))"
  using assms
  unfolding call_def Let_def q_pred_def [symmetric] case_prod_beta bind_err_Inr override_eq
    weights_pred_def normalise_def
  by blast

lemma weight_update_length: "weight_update L w = Inr w0 \<Longrightarrow> length w0 = length w"
  by (auto simp: weight_update_def Let_def bind_err_Inr)

lemma length_normalise [simp]: "length (normalise w) = length w"
  by (simp add: normalise_def)

lemma length_weights_pred [simp]:
  "length (weights_pred c_surv c_born s) = length (weights_surv s) + length (weights_born s)"
  by (simp add: weights_pred_def)

lemma uniform_weights_Inr:
  "uniform_weights n = Inr w \<Longrightarrow> 0 \<le> n \<and> w = replicate (nat n) (Fin (1 / real_of_int n))"
  by (cases "n = 0") (auto simp: uniform_weights_def split: if_splits)

lemma sysresample_Inr_length:
  assumes choice: "\<forall>a n g. length (fst (gen_choice np a n g)) = n"
    and "sysresample np w n g = Inr ig"
  shows "0 \<le> n \<and> length (fst ig) = min (length w) (nat n)"
proof -
  have n: "0 \<le> n" using assms(2) sysresample_negative [of n np w g] by (cases "n < 0") auto
  show ?thesis
  proof (cases "list_ex isnan w")
    case True
    with assms(2) n have "ig = gen_choice np (length w) (min (length w) (nat n)) g"
      by (simp add: sysresample_nan)
    with choice n show ?thesis by simp
  next
    case False
    from sysresample_Inr_no_nan [OF False, of np n g "fst ig" "snd ig"] assms(2)
    show ?thesis by simp
  qed
qed

text \<open>
  Claim C1, as the code has it. The state returned by a transition has
  \<open>min(Nsuv, len(weights_surv) + len(weights_born))\<close> surviving particles (the resampler
  cannot take more particles than the joint population of the input state has), surviving
  weights that are all \<open>1/Nsuv\<close>, \<open>Nbirth\<close> newborn particles (the birth model returning
  as many rows as it is asked for) and a newborn weight vector of \<open>Nbirth\<close> entries
  \<open>1/Nbirth\<close>. The newborn counts agree; whenever the input state holds at least \<open>Nsuv\<close>
  weights there are \<open>Nsuv\<close> surviving particles and as many surviving weights.
\<close>

theorem call_population_sizes:
  assumes "\<forall>a n g. length (fst (gen_choice np a n g)) = n"
    and "\<forall>n g. nrows (fst (birth_model s m n g)) = nat n"
    and "call np s h m = Inr (s', h')"
  shows "nrows (particles_surv s')
           = min (length (weights_surv s) + length (weights_born s)) (nat (Nsuv s))
       \<and> list_all (\<lambda>a. a = Fin (1 / real_of_int (Nsuv s))) (weights_surv s')
       \<and> nrows (particles_born s') = nat (Nbirth s)
       \<and> weights_born s' = replicate (nat (Nbirth s)) (Fin (1 / real_of_int (Nbirth s)))
       \<and> nrows (particles_born s') = length (weights_born s')
       \<and> (Nsuv s \<le> int (length (weights_surv s) + length (weights_born s)) \<longrightarrow>
            nrows (particles_surv s') = nat (Nsuv s)
            \<and> weights_surv s' = replicate (nat (Nsuv s)) (Fin (1 / real_of_int (Nsuv s)))
            \<and> nrows (particles_surv s') = length (weights_surv s'))
       \<and> 0 \<le> Nsuv s \<and> 0 \<le> Nbirth s \<and> Nsuv s' = Nsuv s \<and> Nbirth s' = Nbirth s"
proof -
  from call_Inr [OF assms(3)] obtain particles c_surv c_born w0 ig rows_surv w_surv w_born q'
    where wu: "weight_update (fst (likelihood_fn s (motion_model s particles) m))
                 (weights_pred c_surv c_born s) = Inr w0"
      and sr: "sysresample np (normalise w0) (Nsuv s) (h (rng s)) = Inr ig"
      and ti: "take_idx (rows (motion_model s particles)) (fst ig) = Inr rows_surv"
      and us: "uniform_weights (Nsuv s) = Inr w_surv"
      and ub: "uniform_weights (Nbirth s) = Inr w_born"
      and s': "s' = s\<lparr>particles_born := fst (birth_model s m (Nbirth s) (snd ig)),
                   weights_born := w_born,
                   particles_surv := \<lparr>ncols = ncols (motion_model s particles), rows = rows_surv\<rparr>,
                   weights_surv := w_surv,
                   prob := Np q',
                   N_eff := ess (normalise w0),
                   N_eff_surv := (if nrows (particles_surv s) \<noteq> 0
                      then ess (take (nrows (particles_surv s)) (normalise w0)) else NaN),
                   N_eff_surv_normalized := (if nrows (particles_surv s) \<noteq> 0
                      then ess_normalized (take (nrows (particles_surv s)) (normalise w0)) else NaN),
                   N_eff_born := ess (drop (nrows (particles_surv s)) (normalise w0)),
                   N_eff_born_normalized :=
                      ess_normalized (drop (nrows (particles_surv s)) (normalise w0))\<rparr>"
    by blast
  have lw: "length (normalise w0) = length (weights_surv s) + length (weights_born s)"
    using weight_update_length [OF wu] by simp
  from sysresample_Inr_length [OF assms(1) sr] lw
  have n: "0 \<le> Nsuv s"
    and li: "length (fst ig) = min (length (weights_surv s) + length (weights_born s)) (nat (Nsuv s))"
    by simp_all
  from take_idx_length [OF ti] li
  have a: "nrows (particles_surv s')
             = min (length (weights_surv s) + length (weights_born s)) (nat (Nsuv s))"
    by (simp add: s' nrows_def)
  from uniform_weights_Inr [OF us]
  have b: "weights_surv s' = replicate (nat (Nsuv s)) (Fin (1 / real_of_int (Nsuv s)))"
    by (simp add: s')
  from assms(2) have c: "nrows (particles_born s') = nat (Nbirth s)" by (simp add: s')
  from uniform_weights_Inr [OF ub]
  have d: "weights_born s' = replicate (nat (Nbirth s)) (Fin (1 / real_of_int (Nbirth s)))"
    and nb: "0 \<le> Nbirth s"
    by (simp_all add: s')
  have e: "nrows (particles_born s') = length (weights_born s')" using c d by simp
  have b': "list_all (\<lambda>a. a = Fin (1 / real_of_int (Nsuv s))) (weights_surv s')"
    by (simp add: b list_all_iff)
  have f: "Nsuv s \<le> int (length (weights_surv s) + length (weights_born s)) \<longrightarrow>
            nrows (particles_surv s') = nat (Nsuv s)
            \<and> weights_surv s' = replicate (nat (Nsuv s)) (Fin (1 / real_of_int (Nsuv s)))
            \<and> nrows (particles_surv s') = length (weights_surv s')"
  proof (intro impI conjI)
    assume "Nsuv s \<le> int (length (weights_surv s) + length (weights_born s))"
    with n have m: "min (length (weights_surv s) + length (weights_born s)) (nat (Nsuv s))
                      = nat (Nsuv s)"
      by linarith
    show "nrows (particles_surv s') = nat (Nsuv s)" by (simp only: a m)
    show "weights_surv s' = replicate (nat (Nsuv s)) (Fin (1 / real_of_int (Nsuv s)))" by (rule b)
    show "nrows (particles_surv s') = length (weights_surv s')"
      by (simp only: a m b length_replicate)
  qed
  have g: "Nsuv s' = Nsuv s" "Nbirth s' = Nbirth s" by (simp_all add: s')
  from a b' c d e f n nb g show ?thesis by (intro conjI)
qed

lemma first_filter_example:
  "first_filter n 1 p_birth (Py (Fin (1/2))) = Inr (example_filter n p_birth, (\<lambda>r. 0)(0 := Suc 0))"
  by (simp add: first_filter_def init_def bind_err_def test_birth_model_def example_filter_def)

lemma example_weights_pred:
  assumes "0 < p"
  shows "sc_div (sc_op fmul (prob_surv (example_filter n (Py (Fin p)))) (prob (example_filter n (Py (Fin p)))))
           (q_pred (example_filter n (Py (Fin p)))) = Inr (Py (Fin 0))"
    and "sc_div (sc_op fmul (prob_birth (example_filter n (Py (Fin p))))
                   (sc_op fsub (Py (Fin 1)) (prob (example_filter n (Py (Fin p))))))
           (q_pred (example_filter n (Py (Fin p)))) = Inr (Py (Fin 1))"
    and "sval (q_pred (example_filter n (Py (Fin p)))) = Fin p"
    and "weights_pred (Py (Fin 0)) (Py (Fin 1)) (example_filter n (Py (Fin p))) = [Fin 1]"
  using assms
  by (simp_all add: example_filter_def q_pred_def sc_op_def sc_div_def fsub_def weights_pred_def
      normalise_def)

lemma example_weight_update: "weight_update [Fin 0] [Fin 1] = Inr [Fin 1]"
  by (simp add: weight_update_def np_nonzero_def bind_err_def logsumexp_def put_idx_def fsub_def)

lemma example_sysresample:
  assumes "1 \<le> n"
  shows "sysresample (const_rng (1/2)) [Fin 1] n g = Inr ([0], Suc g)"
proof -
  have "min 1 n = 1" using assms by simp
  then show ?thesis
    by (simp add: sysresample_def const_rng_def np_cumsum_def bind_err_def sysresample_loop.simps)
qed

lemma example_call:
  assumes "0 < p" and "1 \<le> n" and "update_existance_prob [Fin 1] [Fin 1] (Fin p) = Inr q"
  shows "call (const_rng (1/2)) (example_filter n (Py (Fin p))) h None =
           Inr ((example_filter n (Py (Fin p)))
                  \<lparr>particles_born := \<lparr>ncols = 3, rows = [[Fin 0, Fin 0, Fin 0]]\<rparr>,
                   weights_born := [Fin 1],
                   particles_surv := \<lparr>ncols = 3, rows = [[Fin 0, Fin 0, Fin 0]]\<rparr>,
                   weights_surv := replicate (nat n) (Fin (1 / real_of_int n)),
                   prob := Np q,
                   N_eff := Fin 1,
                   N_eff_surv := NaN,
                   N_eff_surv_normalized := NaN,
                   N_eff_born := Fin 1,
                   N_eff_born_normalized := Fin 1\<rparr>,
                h(0 := Suc (Suc (h 0))))"
proof -
  let ?s = "example_filter n (Py (Fin p))"
  note wp = example_weights_pred [OF assms(1), of n]
  have f: "likelihood_fn ?s = test_likelihood" "motion_model ?s = test_motion_model"
    "birth_model ?s = test_birth_model" "Nsuv ?s = n" "Nbirth ?s = 1" "rng ?s = 0"
    "particles_surv ?s = \<lparr>ncols = 3, rows = []\<rparr>"
    "particles_born ?s = \<lparr>ncols = 3, rows = [[Fin 0, Fin 0, Fin 0]]\<rparr>"
    by (simp_all add: example_filter_def)
  have n0: "n \<noteq> 0" "\<not> n < 0" using assms(2) by simp_all
  show ?thesis
    unfolding call_def Let_def q_pred_def [symmetric]
    apply (simp only: f np_concatenate_def matrix.simps if_True bind_err_def sum.case
        wp weights_pred_def [symmetric] normalise_def [symmetric])
    apply (simp add: test_likelihood_def test_motion_model_def nrows_def wp assms(3)
        bind_err_def example_weight_update normalise_def example_sysresample [OF assms(2)]
        uniform_weights_def n0 test_birth_model_def override_eq ess_def ess_normalized_def f)
    done
qed

text \<open>
  Claim C1, as stated, fails on the first transition after construction with
  \<open>Nsuv = 2\<close> and \<open>Nbirth = 1\<close>: the surviving population is empty, the joint population
  has the one newborn particle, and the returned state has 1 surviving particle with 2
  surviving weights.
\<close>

theorem first_transition_sizes:
  "map_sum id (sizes \<circ> fst)
     (first_call (const_rng (1/2)) 2 1 (Py (Fin (1/2))) (Py (Fin (1/2)))) = Inr (1, 2, 1, 1)"
proof -
  obtain l1 l2 where "update_existance_prob [Fin 1] [Fin 1] (Fin (1/2))
          = Inr (fmin (fexp (fsub (fadd l1 (flog (Fin (1/2)))) l2)) (Fin 1))"
    using update_existance_prob_returns [of "[Fin 1]" "[Fin 1]" "Fin (1/2)"] by auto
  from example_call [OF _ _ this, of 2 "(\<lambda>r. 0)(0 := Suc 0)"] show ?thesis
    by (simp add: first_call_def first_filter_example bind_err_def sizes_def nrows_def)
qed

theorem call_population_sizes_witness:
  "\<exists>s' h'. call (const_rng (1/2)) (example_filter 1 (Py (Fin (1/2)))) (\<lambda>r. 0) None = Inr (s', h')
       \<and> nrows (particles_surv s') = 1 \<and> weights_surv s' = [Fin 1]
       \<and> nrows (particles_born s') = 1 \<and> weights_born s' = [Fin 1]"
proof -
  obtain l1 l2 where "update_existance_prob [Fin 1] [Fin 1] (Fin (1/2))
          = Inr (fmin (fexp (fsub (fadd l1 (flog (Fin (1/2)))) l2)) (Fin 1))"
    using update_existance_prob_returns [of "[Fin 1]" "[Fin 1]" "Fin (1/2)"] by auto
  from example_call [OF _ _ this, of 1 "\<lambda>r. 0"] obtain s' h' where
    c: "call (const_rng (1/2)) (example_filter 1 (Py (Fin (1/2)))) (\<lambda>r. 0) None = Inr (s', h')"
    by simp
  have h1: "\<forall>a n g. length (fst (gen_choice (const_rng (1/2)) a n g)) = n"
    by (simp add: const_rng_def)
  have h2: "\<forall>n g. nrows (fst (birth_model (example_filter 1 (Py (Fin (1/2)))) None n g)) = nat n"
    by (simp add: example_filter_def test_birth_model_def nrows_def)
  from call_population_sizes [OF h1 h2 c]
  have "nrows (particles_surv s') = 1 \<and> weights_surv s' = [Fin 1]
       \<and> nrows (particles_born s') = 1 \<and> weights_born s' = [Fin 1]"
    by (simp add: example_filter_def)
  with c show ?thesis by blast
qed

section \<open>The existence probability after a transition\<close>

lemma sval_sc_op [simp]: "sval (sc_op f a b) = f (sval a) (sval b)"
  by (simp add: sc_op_def)

lemma sc_div_Inr: "sc_div a b = Inr c \<Longrightarrow> sval c = fdiv (sval a) (sval b)"
  by (auto simp: sc_div_def split: if_splits)

lemma normalise_valid:
  assumes "\<forall>r \<in> set rs. 0 \<le> r" and "0 < sum_list rs"
  shows "valid_weights (normalise (map Fin rs))"
proof -
  let ?T = "sum_list rs"
  have sum: "np_sum (map Fin rs) = Fin ?T" using np_sum_Fins [of "\<lambda>r. r" rs] by simp
  have n: "normalise (map Fin rs) = map (\<lambda>r. Fin (r / ?T)) rs"
    using assms(2) by (simp add: normalise_def sum)
  have "\<exists>r \<in> set rs. r \<noteq> 0"
  proof (rule ccontr)
    assume "\<not> (\<exists>r \<in> set rs. r \<noteq> 0)"
    then have "\<forall>r \<in> set rs. r = 0" by blast
    then have "sum_list rs = 0" by (induction rs) auto
    with assms(2) show False by simp
  qed
  then obtain r where r: "r \<in> set rs" "r \<noteq> 0" by blast
  have a: "list_all (\<lambda>a. isfinite a \<and> 0 \<le> rv a) (map (\<lambda>r. Fin (r / ?T)) rs)"
    using assms by (simp add: list_all_iff)
  have "Fin (r / ?T) \<noteq> Fin 0" using r(2) assms(2) by simp
  with r(1) have b: "list_ex (\<lambda>a. a \<noteq> Fin 0) (map (\<lambda>r. Fin (r / ?T)) rs)"
    by (auto simp: list_ex_iff)
  from a b show ?thesis by (simp add: valid_weights_def n)
qed

lemma map_fmul_Fin:
  assumes "list_all (\<lambda>a. isfinite a \<and> 0 \<le> rv a) w"
  shows "map (fmul (Fin c)) w = map Fin (map (\<lambda>a. c * rv a) w)"
proof -
  have "fmul (Fin c) a = Fin (c * rv a)" if "a \<in> set w" for a
  proof -
    from that assms have "isfinite a" by (simp add: list_all_iff)
    then have "a = Fin (rv a)" by (rule isfinite_rv)
    then show ?thesis by (metis fmul.simps(1))
  qed
  then show ?thesis by simp
qed

text \<open>The predicted joint weights of a well-formed state are valid weights.\<close>

lemma weights_pred_valid:
  assumes cs: "sval c_surv = Fin cs" "0 \<le> cs" and cb: "sval c_born = Fin cb" "0 \<le> cb"
    and ws: "list_all (\<lambda>a. isfinite a \<and> 0 \<le> rv a) (weights_surv s)"
    and wb: "list_all (\<lambda>a. isfinite a \<and> 0 \<le> rv a) (weights_born s)"
    and pos: "0 < cs * (\<Sum>a\<leftarrow>weights_surv s. rv a) + cb * (\<Sum>a\<leftarrow>weights_born s. rv a)"
  shows "valid_weights (weights_pred c_surv c_born s)"
proof -
  let ?rs = "map (\<lambda>a. cs * rv a) (weights_surv s) @ map (\<lambda>a. cb * rv a) (weights_born s)"
  have eq: "map (fmul (sval c_surv)) (weights_surv s) @ map (fmul (sval c_born)) (weights_born s)
              = map Fin ?rs"
    by (simp add: cs(1) cb(1) map_fmul_Fin [OF ws] map_fmul_Fin [OF wb])
  have nonneg: "\<forall>r \<in> set ?rs. 0 \<le> r"
    using ws wb cs(2) cb(2) by (auto simp: list_all_iff)
  have "sum_list ?rs = cs * (\<Sum>a\<leftarrow>weights_surv s. rv a) + cb * (\<Sum>a\<leftarrow>weights_born s. rv a)"
    by (simp add: sum_list_scale)
  with pos have "0 < sum_list ?rs" by simp
  from normalise_valid [OF nonneg this] show ?thesis
    by (simp only: weights_pred_def eq)
qed

lemma call_prob_range:
  assumes q: "sval (prob s) = Fin q" "0 \<le> q" "q \<le> 1"
    and pb: "sval (prob_birth s) = Fin pb" "0 \<le> pb" "pb \<le> 1"
    and ps: "sval (prob_surv s) = Fin ps" "0 \<le> ps" "ps \<le> 1"
    and qp: "0 < pb * (1 - q) + ps * q" "pb * (1 - q) + ps * q < 1"
    and ws: "list_all (\<lambda>a. isfinite a \<and> 0 \<le> rv a) (weights_surv s)"
    and wb: "list_all (\<lambda>a. isfinite a \<and> 0 \<le> rv a) (weights_born s)"
    and pos: "0 < ps * q * (\<Sum>a\<leftarrow>weights_surv s. rv a) + pb * (1 - q) * (\<Sum>a\<leftarrow>weights_born s. rv a)"
    and lik: "\<forall>particles. np_concatenate (particles_surv s) (particles_born s) = Inr particles \<longrightarrow>
                length (snd (likelihood_fn s (motion_model s particles) m))
                  = length (weights_surv s) + length (weights_born s)
                \<and> list_all isfinite (snd (likelihood_fn s (motion_model s particles) m))"
    and call: "call np s h m = Inr (s', h')"
  shows "\<exists>r. prob s' = Np (Fin r) \<and> 0 \<le> r \<and> r \<le> 1"
proof -
  let ?qp = "pb * (1 - q) + ps * q"
  from call_Inr [OF call] obtain particles c_surv c_born q' where
    conc: "np_concatenate (particles_surv s) (particles_born s) = Inr particles"
    and c1: "sc_div (sc_op fmul (prob_surv s) (prob s)) (q_pred s) = Inr c_surv"
    and c2: "sc_div (sc_op fmul (prob_birth s) (sc_op fsub (Py (Fin 1)) (prob s))) (q_pred s)
               = Inr c_born"
    and up: "update_existance_prob (weights_pred c_surv c_born s)
               (snd (likelihood_fn s (motion_model s particles) m)) (sval (q_pred s)) = Inr q'"
    and s': "prob s' = Np q'"
    by force
  have qpv: "sval (q_pred s) = Fin ?qp" by (simp add: q_pred_def q pb ps fsub_def)
  have cs: "sval c_surv = Fin (ps * q / ?qp)"
    using sc_div_Inr [OF c1] qp(1) by (simp add: qpv q ps)
  have cb: "sval c_born = Fin (pb * (1 - q) / ?qp)"
    using sc_div_Inr [OF c2] qp(1) by (simp add: qpv q pb fsub_def)
  have cs0: "0 \<le> ps * q / ?qp" using q ps qp(1) by simp
  have cb0: "0 \<le> pb * (1 - q) / ?qp" using q pb qp(1) by simp
  have "ps * q / ?qp * (\<Sum>a\<leftarrow>weights_surv s. rv a) + pb * (1 - q) / ?qp * (\<Sum>a\<leftarrow>weights_born s. rv a)
          = (ps * q * (\<Sum>a\<leftarrow>weights_surv s. rv a) + pb * (1 - q) * (\<Sum>a\<leftarrow>weights_born s. rv a)) / ?qp"
    by (simp add: add_divide_distrib)
  also have "0 < \<dots>" using pos qp(1) by simp
  finally have pos': "0 < ps * q / ?qp * (\<Sum>a\<leftarrow>weights_surv s. rv a)
                        + pb * (1 - q) / ?qp * (\<Sum>a\<leftarrow>weights_born s. rv a)" .
  have vw: "valid_weights (weights_pred c_surv c_born s)"
    using cs cs0 cb cb0 ws wb pos' by (rule weights_pred_valid)
  from lik conc have len: "length (snd (likelihood_fn s (motion_model s particles) m))
                             = length (weights_pred c_surv c_born s)"
    and fin: "list_all isfinite (snd (likelihood_fn s (motion_model s particles) m))"
    by simp_all
  have fin': "\<forall>i \<in> set (np_nonzero (weights_pred c_surv c_born s)).
                isfinite (snd (likelihood_fn s (motion_model s particles) m) ! i)"
    using fin len by (simp add: list_all_length set_np_nonzero)
  from update_existance_prob_range [OF len vw fin' qp] up [unfolded qpv]
  obtain r where "q' = Fin r" "0 < r" "r < 1" by auto
  with s' show ?thesis by auto
qed

text \<open>
  Claim C3. For weights with a nonzero entry, a \<open>LogRatio\<close> that is finite where the
  weight is not zero and a \<open>prob_prediction\<close> strictly between 0 and 1, the existence update
  returns \<open>min(exp(logq), 1)\<close> with \<open>logq = logsumexp(x1) + log(prob_prediction) -
  logsumexp(x2)\<close>, which is never greater than 1, and a real number of [0,1] when the
  weights are finite and nonnegative. So the existence probability of the
  state that a transition returns from finite, well-formed inputs lies in [0,1].
\<close>

theorem existence_probability_at_most_one:
  "(length LogRatio = length weight_predictions
      \<and> list_ex (\<lambda>a. a \<noteq> Fin 0) weight_predictions
      \<and> (\<forall>i<length weight_predictions. weight_predictions ! i \<noteq> Fin 0 \<longrightarrow> isfinite (LogRatio ! i))
      \<and> 0 < p \<and> p < 1 \<longrightarrow>
        (\<exists>l1 l2.
            logsumexp (map (\<lambda>i. fadd (LogRatio ! i) (flog (weight_predictions ! i)))
                         (np_nonzero weight_predictions)) = Inr l1
          \<and> logsumexp (flog (fsub (Fin 1) (Fin p))
                         # map (\<lambda>i. fadd (fadd (LogRatio ! i) (flog (Fin p)))
                                       (flog (weight_predictions ! i)))
                             (np_nonzero weight_predictions)) = Inr l2
          \<and> update_existance_prob weight_predictions LogRatio (Fin p)
                = Inr (fmin (fexp (fsub (fadd l1 (flog (Fin p))) l2)) (Fin 1)))
      \<and> (\<forall>q. update_existance_prob weight_predictions LogRatio (Fin p) = Inr q \<longrightarrow>
             \<not> fless (Fin 1) q)
      \<and> (valid_weights weight_predictions \<longrightarrow>
             (\<exists>r. update_existance_prob weight_predictions LogRatio (Fin p) = Inr (Fin r)
                  \<and> 0 \<le> r \<and> r \<le> 1)))
   \<and> (well_formed_input s m \<and> call np s h m = Inr (s', h') \<longrightarrow>
         (\<exists>r. prob s' = Np (Fin r) \<and> 0 \<le> r \<and> r \<le> 1))"
proof (intro conjI impI)
  assume a: "length LogRatio = length weight_predictions
      \<and> list_ex (\<lambda>a. a \<noteq> Fin 0) weight_predictions
      \<and> (\<forall>i<length weight_predictions. weight_predictions ! i \<noteq> Fin 0 \<longrightarrow> isfinite (LogRatio ! i))
      \<and> 0 < p \<and> p < 1"
  then have len: "length LogRatio = length weight_predictions"
    and nz: "list_ex (\<lambda>a. a \<noteq> Fin 0) weight_predictions"
    by simp_all
  from len nz show "\<exists>l1 l2.
            logsumexp (map (\<lambda>i. fadd (LogRatio ! i) (flog (weight_predictions ! i)))
                         (np_nonzero weight_predictions)) = Inr l1
          \<and> logsumexp (flog (fsub (Fin 1) (Fin p))
                         # map (\<lambda>i. fadd (fadd (LogRatio ! i) (flog (Fin p)))
                                       (flog (weight_predictions ! i)))
                             (np_nonzero weight_predictions)) = Inr l2
          \<and> update_existance_prob weight_predictions LogRatio (Fin p)
                = Inr (fmin (fexp (fsub (fadd l1 (flog (Fin p))) l2)) (Fin 1))"
    by (rule update_existance_prob_returns)
  from update_existance_prob_returns [OF len nz, of "Fin p"] obtain l1 l2 where
    u: "update_existance_prob weight_predictions LogRatio (Fin p)
          = Inr (fmin (fexp (fsub (fadd l1 (flog (Fin p))) l2)) (Fin 1))"
    by blast
  show "\<forall>q. update_existance_prob weight_predictions LogRatio (Fin p) = Inr q \<longrightarrow>
             \<not> fless (Fin 1) q"
    using u by (simp add: fmin_not_above)
next
  assume a: "length LogRatio = length weight_predictions
      \<and> list_ex (\<lambda>a. a \<noteq> Fin 0) weight_predictions
      \<and> (\<forall>i<length weight_predictions. weight_predictions ! i \<noteq> Fin 0 \<longrightarrow> isfinite (LogRatio ! i))
      \<and> 0 < p \<and> p < 1"
    and vw: "valid_weights weight_predictions"
  from a have len: "length LogRatio = length weight_predictions" and p: "0 < p" "p < 1"
    and fin: "\<forall>i \<in> set (np_nonzero weight_predictions). isfinite (LogRatio ! i)"
    by (simp_all add: set_np_nonzero)
  from update_existance_prob_range [OF len vw fin p]
  obtain r where "update_existance_prob weight_predictions LogRatio (Fin p) = Inr (Fin r)"
    "0 < r" "r < 1" by blast
  then have "update_existance_prob weight_predictions LogRatio (Fin p) = Inr (Fin r)
               \<and> 0 \<le> r \<and> r \<le> 1" by simp
  then show "\<exists>r. update_existance_prob weight_predictions LogRatio (Fin p) = Inr (Fin r)
                  \<and> 0 \<le> r \<and> r \<le> 1" by (rule exI)
next
  assume "well_formed_input s m \<and> call np s h m = Inr (s', h')"
  then have wf: "well_formed_input s m" and c: "call np s h m = Inr (s', h')" by simp_all
  from wf obtain q pb ps where
    "sval (prob s) = Fin q" "0 \<le> q" "q \<le> 1"
    "sval (prob_birth s) = Fin pb" "0 \<le> pb" "pb \<le> 1"
    "sval (prob_surv s) = Fin ps" "0 \<le> ps" "ps \<le> 1"
    "0 < pb * (1 - q) + ps * q" "pb * (1 - q) + ps * q < 1"
    "list_all (\<lambda>a. isfinite a \<and> 0 \<le> rv a) (weights_surv s)"
    "list_all (\<lambda>a. isfinite a \<and> 0 \<le> rv a) (weights_born s)"
    "0 < ps * q * (\<Sum>a\<leftarrow>weights_surv s. rv a) + pb * (1 - q) * (\<Sum>a\<leftarrow>weights_born s. rv a)"
    "\<forall>particles. np_concatenate (particles_surv s) (particles_born s) = Inr particles \<longrightarrow>
             length (snd (likelihood_fn s (motion_model s particles) m))
               = length (weights_surv s) + length (weights_born s)
           \<and> list_all isfinite (snd (likelihood_fn s (motion_model s particles) m))"
    unfolding well_formed_input_def by blast
  from this c show "\<exists>r. prob s' = Np (Fin r) \<and> 0 \<le> r \<and> r \<le> 1"
    by (rule call_prob_range)
qed

theorem existence_probability_at_most_one_witness:
  "(\<exists>r. update_existance_prob [Fin 1] [Fin 1] (Fin (1/2)) = Inr (Fin r) \<and> 0 \<le> r \<and> r \<le> 1)
   \<and> well_formed_input (example_filter 1 (Py (Fin (1/2)))) None
   \<and> (\<exists>s' h' r. call (const_rng (1/2)) (example_filter 1 (Py (Fin (1/2)))) (\<lambda>r. 0) None
                    = Inr (s', h')
         \<and> prob s' = Np (Fin r) \<and> 0 \<le> r \<and> r \<le> 1)"
proof -
  have h: "length [Fin 1] = length [Fin 1]
      \<and> list_ex (\<lambda>a. a \<noteq> Fin 0) [Fin 1]
      \<and> (\<forall>i<length [Fin 1]. [Fin 1] ! i \<noteq> Fin 0 \<longrightarrow> isfinite ([Fin 1] ! i))
      \<and> 0 < (1/2::real) \<and> (1/2::real) < 1"
    by simp
  have v: "valid_weights [Fin 1]" by (simp add: valid_weights_def)
  have wf: "well_formed_input (example_filter 1 (Py (Fin (1/2)))) (None :: unit option)"
    unfolding well_formed_input_def
    by (rule exI [of _ 0], rule exI [of _ "1/2"], rule exI [of _ "1/2"])
      (auto simp: example_filter_def np_concatenate_def test_likelihood_def test_motion_model_def
        nrows_def)
  note t = existence_probability_at_most_one
    [of "[Fin 1]" "[Fin 1]" "1/2" "example_filter 1 (Py (Fin (1/2)))" None "const_rng (1/2)"
        "\<lambda>r. 0"]
  from t h v obtain r where
    r: "update_existance_prob [Fin 1] [Fin 1] (Fin (1/2)) = Inr (Fin r)" "0 \<le> r" "r \<le> 1"
    by blast
  from example_call [OF _ _ r(1), of 1 "\<lambda>r. 0"] obtain s' h' where
    c: "call (const_rng (1/2)) (example_filter 1 (Py (Fin (1/2)))) (\<lambda>r. 0) None = Inr (s', h')"
    by simp
  from existence_probability_at_most_one
    [of "[Fin 1]" "[Fin 1]" "1/2" "example_filter 1 (Py (Fin (1/2)))" None "const_rng (1/2)"
        "\<lambda>r. 0" s' h'] wf c
  obtain r' where "prob s' = Np (Fin r')" "0 \<le> r'" "r' \<le> 1" by blast
  with c r wf show ?thesis by blast
qed

section \<open>Invalid inputs\<close>

lemma init_given:
  "init a_Nsuv a_Nbirth a_prob_birth a_prob_surv lf bm mm a_prob
        (Some p_born) (Some w_born) (Some p_surv) (Some w_surv) e1 e2 e3 e4 e5 r h =
     Inr (\<lparr>likelihood_fn = lf, birth_model = bm, motion_model = mm,
           Nsuv = a_Nsuv, Nbirth = a_Nbirth, prob_birth = a_prob_birth, prob_surv = a_prob_surv,
           prob = a_prob, particles_surv = p_surv, weights_surv = w_surv,
           particles_born = p_born, weights_born = w_born,
           N_eff = e1, N_eff_surv = e2, N_eff_surv_normalized = e3,
           N_eff_born = e4, N_eff_born_normalized = e5, rng = r\<rparr>, h)"
  by (simp add: init_def bind_err_def)

lemma init_default_weights_fail:
  assumes "a_Nbirth \<le> 0"
  shows "init a_Nsuv a_Nbirth a_prob_birth a_prob_surv lf bm mm a_prob
           p_born None p_surv w_surv e1 e2 e3 e4 e5 r h =
         Inl (if a_Nbirth = 0 then ZeroDivisionError else ValueError)"
  using assms by (simp add: init_def bind_err_def case_prod_beta Let_def)

lemma call_negative_count_fails:
  assumes "Nsuv s < 0 \<or> Nbirth s < 0"
  shows "\<exists>e. call np s h m = Inl e"
proof (cases "call np s h m")
  case (Inl e)
  then show ?thesis by blast
next
  case (Inr r)
  then have "call np s h m = Inr (fst r, snd r)" by simp
  from call_Inr [OF this] obtain w_surv w_born where
    "uniform_weights (Nsuv s) = Inr w_surv" "uniform_weights (Nbirth s) = Inr w_born"
    by blast
  then have "0 \<le> Nsuv s" "0 \<le> Nbirth s" by (auto dest: uniform_weights_Inr)
  with assms show ?thesis by simp
qed

text \<open>
  The transition as the statements before the resampling, followed by the rest.
\<close>

lemma bind_err_Inl: "bind_err (Inl e) f = Inl e"
  by (simp add: bind_err_def)

lemma bind_err_Inr_eq: "bind_err (Inr a) f = f a"
  by (simp add: bind_err_def)

lemma bind_err_assoc: "bind_err (bind_err m f) k = bind_err m (\<lambda>a. bind_err (f a) k)"
  by (cases m) (simp_all add: bind_err_def)

lemma call_after_update:
  "call np s h m =
     bind_err (call_update s m) (\<lambda>(particles_p, q', w).
     bind_err (sysresample np w (Nsuv s) (h (rng s))) (\<lambda>ig.
     bind_err (take_idx (rows particles_p) (fst ig)) (\<lambda>rows_surv.
     bind_err (uniform_weights (Nsuv s)) (\<lambda>w_surv.
     bind_err (uniform_weights (Nbirth s)) (\<lambda>w_born.
       override s (h(rng s := snd (birth_model s m (Nbirth s) (snd ig))))
         (fst (birth_model s m (Nbirth s) (snd ig))) w_born
         \<lparr>ncols = ncols particles_p, rows = rows_surv\<rparr> w_surv (Np q')
         (ess w)
         (if nrows (particles_surv s) \<noteq> 0 then ess (take (nrows (particles_surv s)) w) else NaN)
         (if nrows (particles_surv s) \<noteq> 0
          then ess_normalized (take (nrows (particles_surv s)) w) else NaN)
         (ess (drop (nrows (particles_surv s)) w))
         (ess_normalized (drop (nrows (particles_surv s)) w)))))))"
  unfolding call_def call_update_def Let_def case_prod_beta bind_err_assoc
  by (simp only: bind_err_Inr_eq fst_conv snd_conv)

lemma call_update_counts: "call_update (s\<lparr>Nsuv := n, Nbirth := b\<rparr>) m = call_update s m"
  by (simp add: call_update_def)

lemma call_update_error:
  assumes "call_update s m = Inl e"
  shows "call np s h m = Inl e"
  by (simp only: call_after_update assms bind_err_Inl)

lemma call_negative_Nsuv:
  assumes "call_update s m = Inr (particles_p, q', w)" and "Nsuv s < 0"
  shows "call np s h m = Inl ValueError"
  by (simp only: call_after_update assms(1) bind_err_Inr_eq prod.case
      sysresample_negative [OF assms(2)] bind_err_Inl)

lemma uniform_weights_negative: "n < 0 \<Longrightarrow> uniform_weights n = Inl ValueError"
  by (simp add: uniform_weights_def)

lemma uniform_weights_nonneg:
  "0 \<le> n \<Longrightarrow> uniform_weights n = Inr (replicate (nat n) (fdiv (Fin 1) (Fin (real_of_int n))))"
  by (simp add: uniform_weights_def)

lemma call_negative_Nbirth:
  assumes "call_update s m = Inr (particles_p, q', w)" and "0 \<le> Nsuv s" and "Nbirth s < 0"
  shows "call np s h m =
           (case sysresample np w (Nsuv s) (h (rng s)) of
              Inl e \<Rightarrow> Inl e
            | Inr ig \<Rightarrow>
                (case take_idx (rows particles_p) (fst ig) of
                   Inl e \<Rightarrow> Inl e
                 | Inr rows_surv \<Rightarrow> Inl ValueError))"
proof (cases "sysresample np w (Nsuv s) (h (rng s))")
  case (Inl e)
  then show ?thesis
    by (simp only: call_after_update assms(1) bind_err_Inr_eq prod.case bind_err_Inl sum.case)
next
  case r: (Inr ig)
  show ?thesis
  proof (cases "take_idx (rows particles_p) (fst ig)")
    case (Inl e)
    then show ?thesis
      by (simp only: call_after_update assms(1) bind_err_Inr_eq prod.case r bind_err_Inl
          sum.case)
  next
    case (Inr rows_surv)
    then show ?thesis
      by (simp only: call_after_update assms(1) bind_err_Inr_eq prod.case r bind_err_Inl
          sum.case uniform_weights_nonneg [OF assms(2)] uniform_weights_negative [OF assms(3)])
  qed
qed

lemma call_zero_division:
  assumes "ncols (particles_surv s) = ncols (particles_born s)"
    and "is_py (prob s)" "is_py (prob_birth s)" "is_py (prob_surv s)"
    and "sval (q_pred s) = Fin 0"
  shows "call np s h m = Inl ZeroDivisionError"
proof -
  have "is_py (sc_op fmul (prob_surv s) (prob s))" using assms(2,4) by (simp add: sc_op_def)
  moreover have "is_py (q_pred s)" using assms(2-4) by (simp add: q_pred_def sc_op_def)
  ultimately have "sc_div (sc_op fmul (prob_surv s) (prob s)) (q_pred s) = Inl ZeroDivisionError"
    using assms(5) by (simp add: sc_div_def)
  then have "call_update s m = Inl ZeroDivisionError"
    unfolding call_update_def Let_def q_pred_def [symmetric]
    by (simp add: np_concatenate_def assms(1) bind_err_def)
  then show ?thesis by (rule call_update_error)
qed

lemma init_succeeds:
  assumes "o_wborn \<noteq> None \<or> 0 < a_Nbirth"
  shows "\<exists>s' h'.
           init a_Nsuv a_Nbirth a_prob_birth a_prob_surv lf bm mm a_prob
             o_born o_wborn o_surv o_wsurv e1 e2 e3 e4 e5 r h = Inr (s', h')
         \<and> Nsuv s' = a_Nsuv \<and> Nbirth s' = a_Nbirth
         \<and> prob_birth s' = a_prob_birth \<and> prob_surv s' = a_prob_surv \<and> prob s' = a_prob
         \<and> particles_born s' = (case o_born of None \<Rightarrow> fst (bm None a_Nbirth (h r)) | Some p \<Rightarrow> p)
         \<and> weights_born s' =
             (case o_wborn of
                None \<Rightarrow> replicate (nat a_Nbirth) (Fin (1 / real_of_int a_Nbirth))
              | Some w \<Rightarrow> w)
         \<and> particles_surv s' =
             (case o_surv of None \<Rightarrow> \<lparr>ncols = ncols (particles_born s'), rows = []\<rparr> | Some p \<Rightarrow> p)
         \<and> weights_surv s' = (case o_wsurv of None \<Rightarrow> [] | Some w \<Rightarrow> w)"
  using assms
  by (cases o_wborn; cases o_born; cases o_surv; cases o_wsurv)
    (simp_all add: init_def bind_err_def case_prod_beta Let_def)

lemma example_call_update:
  assumes "0 < p" and "update_existance_prob [Fin 1] [Fin 1] (Fin p) = Inr q"
  shows "call_update (example_filter n (Py (Fin p))) None
           = Inr (\<lparr>ncols = 3, rows = [[Fin 0, Fin 0, Fin 0]]\<rparr>, q, [Fin 1])"
proof -
  let ?s = "example_filter n (Py (Fin p))"
  note wp = example_weights_pred [OF assms(1), of n]
  have f: "likelihood_fn ?s = test_likelihood" "motion_model ?s = test_motion_model"
    "particles_surv ?s = \<lparr>ncols = 3, rows = []\<rparr>"
    "particles_born ?s = \<lparr>ncols = 3, rows = [[Fin 0, Fin 0, Fin 0]]\<rparr>"
    by (simp_all add: example_filter_def)
  show ?thesis
    unfolding call_update_def Let_def q_pred_def [symmetric]
    apply (simp only: f np_concatenate_def matrix.simps if_True bind_err_def sum.case
        wp weights_pred_def [symmetric] normalise_def [symmetric])
    apply (simp add: test_likelihood_def test_motion_model_def nrows_def wp assms(2)
        bind_err_def example_weight_update normalise_def)
    done
qed

lemma example_existance_returns: "\<exists>q. update_existance_prob [Fin 1] [Fin 1] (Fin (1/2)) = Inr q"
  using update_existance_prob_returns [of "[Fin 1]" "[Fin 1]" "Fin (1/2)"] by auto

text \<open>
  Claim C7, as the code has it. Neither the constructor nor the transition checks its
  inputs, and neither changes them. A construction call that is given both populations and
  both weight vectors returns a filter that holds every argument as it was passed, whatever
  the counts, the probabilities and the lengths are. The constructor fails exactly when the
  newborn weights are left at their default and \<open>Nbirth \<le> 0\<close>: for \<open>Nbirth = 0\<close> in the
  division \<open>1/Nbirth\<close>, for a negative \<open>Nbirth\<close> in \<open>np.ones\<close>; every other call returns
  a filter that holds the counts, the probabilities and the arrays given as they were
  passed. The transition reads \<open>Nsuv\<close> and \<open>Nbirth\<close> only where it uses them: the
  statements before the resampling do not depend on them, and an error of these statements
  is the error of the transition, whatever the counts are; with Python numbers for the
  three probabilities and a predicted existence probability of 0 this is the
  \<open>ZeroDivisionError\<close> of \<open>prob_surv * q/q_p\<close>. Where these statements return, a negative
  \<open>Nsuv\<close> ends in the \<open>ValueError\<close> of the resampler; a negative \<open>Nbirth\<close> with a
  nonnegative \<open>Nsuv\<close> ends in the error of the resampler or of the indexing by its result,
  if one of them fails, and in the \<open>ValueError\<close> of \<open>np.ones(Nbirth)\<close> otherwise. So a
  transition from a state with a negative \<open>Nsuv\<close> or \<open>Nbirth\<close> ends in an error.
\<close>

theorem no_input_validation:
  "init a_Nsuv a_Nbirth a_prob_birth a_prob_surv lf bm mm a_prob
        (Some p_born) (Some w_born) (Some p_surv) (Some w_surv) e1 e2 e3 e4 e5 r h =
     Inr (\<lparr>likelihood_fn = lf, birth_model = bm, motion_model = mm,
           Nsuv = a_Nsuv, Nbirth = a_Nbirth, prob_birth = a_prob_birth, prob_surv = a_prob_surv,
           prob = a_prob, particles_surv = p_surv, weights_surv = w_surv,
           particles_born = p_born, weights_born = w_born,
           N_eff = e1, N_eff_surv = e2, N_eff_surv_normalized = e3,
           N_eff_born = e4, N_eff_born_normalized = e5, rng = r\<rparr>, h)
   \<and> (a_Nbirth \<le> 0 \<longrightarrow>
        init a_Nsuv a_Nbirth a_prob_birth a_prob_surv lf bm mm a_prob
           o_born None o_surv o_wsurv e1 e2 e3 e4 e5 r h =
         Inl (if a_Nbirth = 0 then ZeroDivisionError else ValueError))
   \<and> (o_wborn \<noteq> None \<or> 0 < a_Nbirth \<longrightarrow>
        (\<exists>s' h'.
           init a_Nsuv a_Nbirth a_prob_birth a_prob_surv lf bm mm a_prob
             o_born o_wborn o_surv o_wsurv e1 e2 e3 e4 e5 r h = Inr (s', h')
         \<and> Nsuv s' = a_Nsuv \<and> Nbirth s' = a_Nbirth
         \<and> prob_birth s' = a_prob_birth \<and> prob_surv s' = a_prob_surv \<and> prob s' = a_prob
         \<and> particles_born s' = (case o_born of None \<Rightarrow> fst (bm None a_Nbirth (h r)) | Some p \<Rightarrow> p)
         \<and> weights_born s' =
             (case o_wborn of
                None \<Rightarrow> replicate (nat a_Nbirth) (Fin (1 / real_of_int a_Nbirth))
              | Some w \<Rightarrow> w)
         \<and> particles_surv s' =
             (case o_surv of None \<Rightarrow> \<lparr>ncols = ncols (particles_born s'), rows = []\<rparr> | Some p \<Rightarrow> p)
         \<and> weights_surv s' = (case o_wsurv of None \<Rightarrow> [] | Some w \<Rightarrow> w)))
   \<and> call_update (s\<lparr>Nsuv := n, Nbirth := b\<rparr>) m = call_update s m
   \<and> (call_update s m = Inl e \<longrightarrow> call np s g m = Inl e)
   \<and> (ncols (particles_surv s) = ncols (particles_born s)
        \<and> is_py (prob s) \<and> is_py (prob_birth s) \<and> is_py (prob_surv s)
        \<and> sval (q_pred s) = Fin 0 \<longrightarrow>
        call np s g m = Inl ZeroDivisionError)
   \<and> (call_update s m = Inr (particles_p, q', w) \<and> Nsuv s < 0 \<longrightarrow>
        call np s g m = Inl ValueError)
   \<and> (call_update s m = Inr (particles_p, q', w) \<and> 0 \<le> Nsuv s \<and> Nbirth s < 0 \<longrightarrow>
        call np s g m =
          (case sysresample np w (Nsuv s) (g (rng s)) of
             Inl e \<Rightarrow> Inl e
           | Inr ig \<Rightarrow>
               (case take_idx (rows particles_p) (fst ig) of
                  Inl e \<Rightarrow> Inl e
                | Inr rows_surv \<Rightarrow> Inl ValueError)))
   \<and> (Nsuv s < 0 \<or> Nbirth s < 0 \<longrightarrow> (\<exists>e. call np s g m = Inl e))"
proof -
  note a = init_given [of a_Nsuv a_Nbirth a_prob_birth a_prob_surv lf bm mm a_prob
      p_born w_born p_surv w_surv e1 e2 e3 e4 e5 r h]
  have b: "a_Nbirth \<le> 0 \<longrightarrow>
        init a_Nsuv a_Nbirth a_prob_birth a_prob_surv lf bm mm a_prob
           o_born None o_surv o_wsurv e1 e2 e3 e4 e5 r h =
         Inl (if a_Nbirth = 0 then ZeroDivisionError else ValueError)"
    by (intro impI) (rule init_default_weights_fail)
  have c: "o_wborn \<noteq> None \<or> 0 < a_Nbirth \<longrightarrow>
        (\<exists>s' h'.
           init a_Nsuv a_Nbirth a_prob_birth a_prob_surv lf bm mm a_prob
             o_born o_wborn o_surv o_wsurv e1 e2 e3 e4 e5 r h = Inr (s', h')
         \<and> Nsuv s' = a_Nsuv \<and> Nbirth s' = a_Nbirth
         \<and> prob_birth s' = a_prob_birth \<and> prob_surv s' = a_prob_surv \<and> prob s' = a_prob
         \<and> particles_born s' = (case o_born of None \<Rightarrow> fst (bm None a_Nbirth (h r)) | Some p \<Rightarrow> p)
         \<and> weights_born s' =
             (case o_wborn of
                None \<Rightarrow> replicate (nat a_Nbirth) (Fin (1 / real_of_int a_Nbirth))
              | Some w \<Rightarrow> w)
         \<and> particles_surv s' =
             (case o_surv of None \<Rightarrow> \<lparr>ncols = ncols (particles_born s'), rows = []\<rparr> | Some p \<Rightarrow> p)
         \<and> weights_surv s' = (case o_wsurv of None \<Rightarrow> [] | Some w \<Rightarrow> w))"
    by (intro impI) (rule init_succeeds)
  have d: "call_update (s\<lparr>Nsuv := n, Nbirth := b\<rparr>) m = call_update s m"
    by (rule call_update_counts)
  have e: "call_update s m = Inl e \<longrightarrow> call np s g m = Inl e"
    by (intro impI) (rule call_update_error)
  have f: "ncols (particles_surv s) = ncols (particles_born s)
        \<and> is_py (prob s) \<and> is_py (prob_birth s) \<and> is_py (prob_surv s)
        \<and> sval (q_pred s) = Fin 0 \<longrightarrow>
        call np s g m = Inl ZeroDivisionError"
    by (intro impI, elim conjE) (rule call_zero_division)
  have g: "call_update s m = Inr (particles_p, q', w) \<and> Nsuv s < 0 \<longrightarrow>
        call np s g m = Inl ValueError"
    by (intro impI, elim conjE) (rule call_negative_Nsuv)
  have h: "call_update s m = Inr (particles_p, q', w) \<and> 0 \<le> Nsuv s \<and> Nbirth s < 0 \<longrightarrow>
        call np s g m =
          (case sysresample np w (Nsuv s) (g (rng s)) of
             Inl e \<Rightarrow> Inl e
           | Inr ig \<Rightarrow>
               (case take_idx (rows particles_p) (fst ig) of
                  Inl e \<Rightarrow> Inl e
                | Inr rows_surv \<Rightarrow> Inl ValueError))"
    by (intro impI, elim conjE) (rule call_negative_Nbirth)
  have i: "Nsuv s < 0 \<or> Nbirth s < 0 \<longrightarrow> (\<exists>e. call np s g m = Inl e)"
    by (intro impI) (rule call_negative_count_fails)
  from a b c d e f g h i show ?thesis by (intro conjI)
qed

lemma example_existance_nan: "update_existance_prob [Fin 1] [Fin 1] (Fin 2) = Inr NaN"
  by (simp add: update_existance_prob_def np_nonzero_def bind_err_def logsumexp_def fsub_def
      fmax_def fmin_def)

text \<open>
  Claim C7, as stated, fails for \<open>prob_birth = 2\<close>: the constructor returns a filter
  that holds this value, and the first transition of that filter returns a state, whose
  existence probability is \<open>nan\<close>.
\<close>

theorem invalid_prob_birth_accepted:
  "map_sum id (prob_birth \<circ> fst) (first_filter 1 1 (Py (Fin 2)) (Py (Fin (1/2)))) = Inr (Py (Fin 2))
   \<and> map_sum id (prob \<circ> fst) (first_call (const_rng (1/2)) 1 1 (Py (Fin 2)) (Py (Fin (1/2))))
       = Inr (Np NaN)"
  using example_call [OF _ _ example_existance_nan, of 1 "(\<lambda>r. 0)(0 := Suc 0)"]
  by (simp add: first_call_def first_filter_example bind_err_def example_filter_def)

theorem no_input_validation_witness:
  "first_filter 1 0 (Py (Fin (1/2))) (Py (Fin (1/2))) = Inl ZeroDivisionError
   \<and> (\<exists>s' h'. first_filter (- 2) 3 (Py (Fin 2)) (Py (Fin (1/2))) = Inr (s', h')
          \<and> Nsuv s' = - 2 \<and> prob_birth s' = Py (Fin 2)
          \<and> weights_born s' = [Fin (1/3), Fin (1/3), Fin (1/3)])
   \<and> call (const_rng (1/2)) (example_filter (- 1) (Py (Fin 0))) (\<lambda>r. 0) None
       = Inl ZeroDivisionError
   \<and> call (const_rng (1/2)) (example_filter (- 1) (Py (Fin (1/2)))) (\<lambda>r. 0) None
       = Inl ValueError
   \<and> call (const_rng (1/2)) ((example_filter 1 (Py (Fin (1/2))))\<lparr>Nsuv := 1, Nbirth := - 1\<rparr>)
        (\<lambda>r. 0) None
       = Inl ValueError"
proof -
  let ?p = "Py (Fin (1/2))"
  let ?P = "\<lparr>ncols = 3, rows = [[Fin 0, Fin 0, Fin 0]]\<rparr>"
  from example_existance_returns obtain q where
    q: "update_existance_prob [Fin 1] [Fin 1] (Fin (1/2)) = Inr q" by blast
  note u = example_call_update [OF _ q]
  note t1 = no_input_validation [where a_Nbirth = 0 and a_Nsuv = 1
      and a_prob_birth = ?p and a_prob_surv = ?p
      and lf = "test_likelihood :: unit Likelihood" and bm = test_birth_model
      and mm = test_motion_model and a_prob = "Py (Fin 0)"
      and o_born = None and o_surv = None and o_wsurv = None and o_wborn = None
      and ?e1.0 = NaN and ?e2.0 = NaN and ?e3.0 = NaN and ?e4.0 = NaN and ?e5.0 = NaN
      and r = 0 and h = "\<lambda>r. 0"
      and s = "example_filter (- 1) (Py (Fin 0))" and np = "const_rng (1/2)"
      and g = "\<lambda>r. 0" and m = None]
  note t2 = no_input_validation [where a_Nbirth = 3 and a_Nsuv = "- 2"
      and a_prob_birth = "Py (Fin 2)" and a_prob_surv = ?p
      and lf = "test_likelihood :: unit Likelihood" and bm = test_birth_model
      and mm = test_motion_model and a_prob = "Py (Fin 0)"
      and o_born = None and o_surv = None and o_wsurv = None and o_wborn = None
      and ?e1.0 = NaN and ?e2.0 = NaN and ?e3.0 = NaN and ?e4.0 = NaN and ?e5.0 = NaN
      and r = 0 and h = "\<lambda>r. 0"
      and s = "example_filter (- 1) ?p" and np = "const_rng (1/2)"
      and g = "\<lambda>r. 0" and m = None and particles_p = ?P and q' = q and w = "[Fin 1]"]
  note t3 = no_input_validation [where s = "example_filter 1 ?p" and n = 1 and b = "- 1"
      and m = None]
  note t4 = no_input_validation [where s = "(example_filter 1 ?p)\<lparr>Nsuv := 1, Nbirth := - 1\<rparr>"
      and np = "const_rng (1/2)" and g = "\<lambda>r. 0" and m = None
      and particles_p = ?P and q' = q and w = "[Fin 1]"]
  from t1 [THEN conjunct2, THEN conjunct1] have w1: "first_filter 1 0 ?p ?p = Inl ZeroDivisionError"
    by (simp add: first_filter_def)
  from t2 [THEN conjunct2, THEN conjunct2, THEN conjunct1] obtain s' h' where
    "init (- 2) 3 (Py (Fin 2)) ?p (test_likelihood :: unit Likelihood) test_birth_model
       test_motion_model (Py (Fin 0)) None None None None NaN NaN NaN NaN NaN 0 (\<lambda>r. 0)
       = Inr (s', h')"
    "Nsuv s' = - 2" "prob_birth s' = Py (Fin 2)"
    "weights_born s' = replicate (nat 3) (Fin (1 / real_of_int 3))"
    by auto
  then have w2: "\<exists>s' h'. first_filter (- 2) 3 (Py (Fin 2)) ?p = Inr (s', h')
          \<and> Nsuv s' = - 2 \<and> prob_birth s' = Py (Fin 2)
          \<and> weights_born s' = [Fin (1/3), Fin (1/3), Fin (1/3)]"
    by (simp add: first_filter_def numeral_3_eq_3)
  have "sval (q_pred (example_filter (- 1) (Py (Fin 0)))) = Fin 0"
    by (simp add: q_pred_def example_filter_def sc_op_def fsub_def)
  with t1 [THEN conjunct2, THEN conjunct2, THEN conjunct2, THEN conjunct2, THEN conjunct2, THEN conjunct1] have w3: "call (const_rng (1/2)) (example_filter (- 1) (Py (Fin 0))) (\<lambda>r. 0) None
       = Inl ZeroDivisionError"
    by (simp add: example_filter_def)
  from t2 [THEN conjunct2, THEN conjunct2, THEN conjunct2, THEN conjunct2, THEN conjunct2, THEN conjunct2, THEN conjunct1] u [of "- 1"] have w4:
    "call (const_rng (1/2)) (example_filter (- 1) ?p) (\<lambda>r. 0) None = Inl ValueError"
    by (simp add: example_filter_def)
  from t3 [THEN conjunct2, THEN conjunct2, THEN conjunct2, THEN conjunct1] u [of 1] have
    "call_update ((example_filter 1 ?p)\<lparr>Nsuv := 1, Nbirth := - 1\<rparr>) None = Inr (?P, q, [Fin 1])"
    by simp
  with t4 [THEN conjunct2, THEN conjunct2, THEN conjunct2, THEN conjunct2, THEN conjunct2, THEN conjunct2, THEN conjunct2, THEN conjunct1] have w5:
    "call (const_rng (1/2)) ((example_filter 1 ?p)\<lparr>Nsuv := 1, Nbirth := - 1\<rparr>) (\<lambda>r. 0) None
       = Inl ValueError"
    by (simp add: example_filter_def example_sysresample)
  from w1 w2 w3 w4 w5 show ?thesis by (intro conjI)
qed

section \<open>Determinism of the transition\<close>

lemma map_sum_bind_err:
  "map_sum id F (bind_err x f) = bind_err x (\<lambda>a. map_sum id F (f a))"
  by (cases x) (simp_all add: bind_err_def)

lemma call_other_instance:
  assumes "s2 = s1\<lparr>rng := r2\<rparr>" and "h2 r2 = h1 (rng s1)"
  shows "call np s2 h2 m =
           map_sum id (\<lambda>(s', h'). (s'\<lparr>rng := r2\<rparr>, h2(r2 := h' (rng s1)))) (call np s1 h1 m)"
  using assms
  by (cases s1) (simp add: call_def Let_def map_sum_bind_err split_def override_eq)

text \<open>
  Claim C9. Take two runs of the transition: one from a filter \<open>s1\<close> over a store \<open>h1\<close>,
  one from a filter \<open>s2\<close> with the same fields but its own generator instance \<open>r2\<close> over
  a store \<open>h2\<close>, the two generators in the same state, and the same measurements. Both runs
  raise the same exception, or both return: the two returned filters agree in every field
  but the generator reference, and the two generators are left in the same state.
\<close>

theorem call_deterministic:
  assumes "s2 = s1\<lparr>rng := r2\<rparr>" and "h2 r2 = h1 (rng s1)"
  shows "call np s2 h2 m =
           map_sum id (\<lambda>(s', h'). (s'\<lparr>rng := r2\<rparr>, h2(r2 := h' (rng s1)))) (call np s1 h1 m)
       \<and> (\<forall>e. call np s1 h1 m = Inl e \<longrightarrow> call np s2 h2 m = Inl e)
       \<and> (\<forall>s1' h1'. call np s1 h1 m = Inr (s1', h1') \<longrightarrow>
             (\<exists>s2' h2'. call np s2 h2 m = Inr (s2', h2')
                \<and> s2' = s1'\<lparr>rng := r2\<rparr> \<and> h2' (rng s2') = h1' (rng s1')))"
proof -
  note eq = call_other_instance [where ?s2.0 = s2 and ?s1.0 = s1 and ?r2.0 = r2
      and ?h2.0 = h2 and ?h1.0 = h1 and np = np and m = m, OF assms]
  have a: "\<forall>e. call np s1 h1 m = Inl e \<longrightarrow> call np s2 h2 m = Inl e"
    by (simp add: eq)
  have b: "\<forall>s1' h1'. call np s1 h1 m = Inr (s1', h1') \<longrightarrow>
             (\<exists>s2' h2'. call np s2 h2 m = Inr (s2', h2')
                \<and> s2' = s1'\<lparr>rng := r2\<rparr> \<and> h2' (rng s2') = h1' (rng s1'))"
  proof (intro allI impI)
    fix s1' h1'
    assume c: "call np s1 h1 m = Inr (s1', h1')"
    from call_Inr [OF c] have "rng s1' = rng s1" by auto
    with c show "\<exists>s2' h2'. call np s2 h2 m = Inr (s2', h2')
                \<and> s2' = s1'\<lparr>rng := r2\<rparr> \<and> h2' (rng s2') = h1' (rng s1')"
      by (simp add: eq)
  qed
  from eq a b show ?thesis by (intro conjI)
qed

theorem call_deterministic_witness:
  "(example_filter 1 (Py (Fin (1/2))))\<lparr>rng := 7\<rparr> = (example_filter 1 (Py (Fin (1/2))))\<lparr>rng := 7\<rparr>
   \<and> (\<lambda>r. 5 :: nat) 7 = (\<lambda>r. if r = 0 then 5 else 9) (rng (example_filter 1 (Py (Fin (1/2)))))
   \<and> (\<exists>s1' h1' s2' h2'.
         call (const_rng (1/2)) (example_filter 1 (Py (Fin (1/2)))) (\<lambda>r. if r = 0 then 5 else 9) None
           = Inr (s1', h1')
       \<and> call (const_rng (1/2)) ((example_filter 1 (Py (Fin (1/2))))\<lparr>rng := 7\<rparr>) (\<lambda>r. 5) None
           = Inr (s2', h2')
       \<and> s2' = s1'\<lparr>rng := 7\<rparr> \<and> h2' 7 = h1' 0)"
proof -
  let ?s1 = "example_filter 1 (Py (Fin (1/2)))"
  have h1: "?s1\<lparr>rng := 7\<rparr> = ?s1\<lparr>rng := 7\<rparr>" by (rule refl)
  have h2: "(\<lambda>r. 5 :: nat) 7 = (\<lambda>r. if r = 0 then 5 else 9) (rng ?s1)"
    by (simp add: example_filter_def)
  obtain l1 l2 where "update_existance_prob [Fin 1] [Fin 1] (Fin (1/2))
          = Inr (fmin (fexp (fsub (fadd l1 (flog (Fin (1/2)))) l2)) (Fin 1))"
    using update_existance_prob_returns [of "[Fin 1]" "[Fin 1]" "Fin (1/2)"] by auto
  from example_call [OF _ _ this, of 1 "\<lambda>r. if r = 0 then 5 else 9"] obtain s1' h1' where
    c: "call (const_rng (1/2)) ?s1 (\<lambda>r. if r = 0 then 5 else 9) None = Inr (s1', h1')"
    by simp
  from call_deterministic [where ?s2.0 = "?s1\<lparr>rng := 7\<rparr>" and ?s1.0 = ?s1 and ?r2.0 = 7
      and ?h2.0 = "\<lambda>r. 5" and ?h1.0 = "\<lambda>r. if r = 0 then 5 else 9"
      and np = "const_rng (1/2)" and m = None, OF h1 h2] c
  obtain s2' h2' where "call (const_rng (1/2)) (?s1\<lparr>rng := 7\<rparr>) (\<lambda>r. 5) None = Inr (s2', h2')"
    "s2' = s1'\<lparr>rng := 7\<rparr>" "h2' (rng s2') = h1' (rng s1')"
    by blast
  moreover from call_Inr [OF c] have "rng s1' = 0" by (auto simp: example_filter_def)
  ultimately show ?thesis using c h1 h2 by auto
qed

section \<open>Mean and covariance of a state without surviving particles\<close>

lemma map_const_upt: "map (\<lambda>i. c) [0..<n] = replicate n c"
  by (induction n) (auto simp: replicate_append_same)

text \<open>
  Claim C10. For a state with no surviving particles and weights and a nonempty newborn
  population of \<open>D\<close> columns (one weight per newborn particle), the covariance query
  returns the \<open>D \<times> D\<close> matrix of zeros, while the mean query returns the weighted sum of
  the newborn particles.
\<close>

theorem covar_empty_surviving:
  assumes "weights_surv s = []" and "rows (particles_surv s) = []"
    and "weights_born s \<noteq> []"
    and "length (weights_born s) = nrows (particles_born s)"
    and "ncols (particles_surv s) = ncols (particles_born s)"
  shows "covar s = Inr \<lparr>ncols = ncols (particles_born s),
                       rows = replicate (ncols (particles_born s))
                                (replicate (ncols (particles_born s)) (Fin 0))\<rparr>
       \<and> mean s = Inr (map (\<lambda>d. np_sum (map2 (\<lambda>wi r. fmul wi (r ! d)) (weights_born s)
                                         (rows (particles_born s))))
                        [0..<ncols (particles_born s)])"
proof -
  have m: "mean s = Inr (map (\<lambda>d. np_sum (map2 (\<lambda>wi r. fmul wi (r ! d)) (weights_born s)
                                         (rows (particles_born s))))
                        [0..<ncols (particles_born s)])"
    using assms(3) by (simp add: mean_def vecmat_def assms(1) assms(4) [symmetric])
  have d: "np_subtract (particles_surv s)
             (map (\<lambda>d. np_sum (map2 (\<lambda>wi r. fmul wi (r ! d)) (weights_born s)
                                         (rows (particles_born s))))
                        [0..<ncols (particles_born s)])
           = Inr \<lparr>ncols = ncols (particles_born s), rows = []\<rparr>"
    using assms(2,5) by (simp add: np_subtract_def)
  have e: "einsum_i_id_ic [] \<lparr>ncols = ncols (particles_born s), rows = []\<rparr>
           = Inr \<lparr>ncols = ncols (particles_born s),
                  rows = replicate (ncols (particles_born s))
                           (replicate (ncols (particles_born s)) (Fin 0))\<rparr>"
    by (simp add: einsum_i_id_ic_def nrows_def map_const_upt)
  have "covar s = Inr \<lparr>ncols = ncols (particles_born s),
                       rows = replicate (ncols (particles_born s))
                                (replicate (ncols (particles_born s)) (Fin 0))\<rparr>"
    by (simp add: covar_def m d e assms(1) bind_err_def)
  from this m show ?thesis by (rule conjI)
qed

theorem covar_empty_surviving_witness:
  "weights_surv (example_filter 1 (Py (Fin (1/2)))) = []
   \<and> weights_born (example_filter 1 (Py (Fin (1/2)))) \<noteq> []
   \<and> covar (example_filter 1 (Py (Fin (1/2))))
       = Inr \<lparr>ncols = 3, rows = [[Fin 0, Fin 0, Fin 0], [Fin 0, Fin 0, Fin 0], [Fin 0, Fin 0, Fin 0]]\<rparr>
   \<and> mean (example_filter 1 (Py (Fin (1/2)))) = Inr [Fin 0, Fin 0, Fin 0]"
proof -
  let ?s = "example_filter 1 (Py (Fin (1/2)))"
  have h: "weights_surv ?s = []" "rows (particles_surv ?s) = []" "weights_born ?s \<noteq> []"
    "length (weights_born ?s) = nrows (particles_born ?s)"
    "ncols (particles_surv ?s) = ncols (particles_born ?s)"
    by (simp_all add: example_filter_def nrows_def)
  have n: "ncols (particles_born ?s) = 3" "weights_born ?s = [Fin 1]"
    "rows (particles_born ?s) = [[Fin 0, Fin 0, Fin 0]]"
    by (simp_all add: example_filter_def)
  from covar_empty_surviving [OF h] h(1,3) show ?thesis
    by (simp add: n numeral_3_eq_3 upt_rec)
qed

end
